theory Spec2Isabelle
  imports Complex_Main
begin

section \<open>The annealing engine of \<open>src/index.ts\<close>\<close>

text \<open>
  Numbers. A TypeScript \<open>number\<close> is an IEEE 754 double. It is modelled as the
  \<^typ>\<open>real\<close> it denotes: the finite doubles, without NaN, infinity and signed zero.
  Comparisons are exact on doubles. Of the arithmetic, the product of line 114
  (\<open>currentTemperature *= coolingFactor\<close>) is rounded as the machine rounds it, since the
  schedule of temperatures is that product repeated; the acceptance test of line 102 is
  taken on the exact values, and it writes out what the code does when the temperature
  is zero. A product beyond the largest double (where the code holds \<open>Infinity\<close>) is
  outside the model.

  Effects. The caller's capabilities and \<open>Math.random\<close> are JavaScript functions: they
  may read and write anything reachable (a generated neighbor may share structure with
  its argument, or be its argument, mutated in place). Each is therefore a transformer of
  a world \<open>'w\<close> (the heap and the random generator), and a state \<open>'s\<close> is whatever the
  engine's variables hold: a value, or a reference into the world. A capability is a
  function: its calls return.
\<close>

subsection \<open>Doubles\<close>

text \<open>
  Rounding to the nearest double, ties to even (binary64: 53 significant bits, exponents
  down to \<open>pow2 (- 1022)\<close> for normal numbers, and subnormal numbers on the grid of
  \<open>pow2 (- 1074)\<close> below). \<open>quantum x\<close> is the exponent of the grid on which the doubles
  around \<open>x\<close> lie, and \<open>binary64 x\<close> the double nearest \<open>x\<close>. A real is a double when
  rounding leaves it as it is.
\<close>

definition pow2 :: "int \<Rightarrow> real" where
  "pow2 e = 2 powi e"

definition round_even :: "real \<Rightarrow> int" where
  "round_even y =
     (let n = \<lfloor>y\<rfloor>; d = y - of_int n
      in if d < 1 / 2 then n else if 1 / 2 < d then n + 1 else if even n then n else n + 1)"

definition quantum :: "real \<Rightarrow> int" where
  "quantum x = (if \<bar>x\<bar> < pow2 (- 1022) then - 1074 else \<lfloor>log 2 \<bar>x\<bar>\<rfloor> - 52)"

definition binary64 :: "real \<Rightarrow> real" where
  "binary64 x = of_int (round_even (x / pow2 (quantum x))) * pow2 (quantum x)"

definition is_double :: "real \<Rightarrow> bool" where
  "is_double x \<longleftrightarrow> binary64 x = x"


record SimulatedAnnealingOptions =
  coolingFactor :: "real option"
  initialTemperature :: "real option"
  minimumTemperature :: "real option"
  swapsPerTemperature :: "real option"

record ('s, 'w) SimulatedAnnealingArgs =
  copyState :: "'s \<Rightarrow> 'w \<Rightarrow> 's \<times> 'w"
  generateNewState :: "'s \<Rightarrow> 'w \<Rightarrow> 's \<times> 'w"
  getCost :: "'s \<Rightarrow> 'w \<Rightarrow> real \<times> 'w"
  initialState :: 's
  options :: "SimulatedAnnealingOptions option"

text \<open>The local variables of \<open>runSimulatedAnnealing\<close> that live across iterations.\<close>

record 's run_state =
  currentState :: 's
  currentCost :: real
  currentTemperature :: real
  bestState :: 's
  bestCost :: real

text \<open>
  The destructuring \<open>const {coolingFactor = 0.99, ...} = options ?? {}\<close>: each field
  falls back to its default on its own. The literals \<open>0.99\<close> and \<open>0.00001\<close> denote
  the doubles nearest to them.
\<close>

definition optionsOrEmpty :: "SimulatedAnnealingOptions option \<Rightarrow> SimulatedAnnealingOptions" where
  "optionsOrEmpty opts =
     (case opts of
        None \<Rightarrow> \<lparr>coolingFactor = None, initialTemperature = None,
                 minimumTemperature = None, swapsPerTemperature = None\<rparr>
      | Some r \<Rightarrow> r)"

definition coolingFactorOf :: "SimulatedAnnealingOptions option \<Rightarrow> real" where
  "coolingFactorOf opts = (case coolingFactor (optionsOrEmpty opts) of None \<Rightarrow> binary64 (99 / 100) | Some v \<Rightarrow> v)"

definition initialTemperatureOf :: "SimulatedAnnealingOptions option \<Rightarrow> real" where
  "initialTemperatureOf opts = (case initialTemperature (optionsOrEmpty opts) of None \<Rightarrow> 1 | Some v \<Rightarrow> v)"

definition minimumTemperatureOf :: "SimulatedAnnealingOptions option \<Rightarrow> real" where
  "minimumTemperatureOf opts =
     (case minimumTemperature (optionsOrEmpty opts) of None \<Rightarrow> binary64 (1 / 100000) | Some v \<Rightarrow> v)"

definition swapsPerTemperatureOf :: "SimulatedAnnealingOptions option \<Rightarrow> real" where
  "swapsPerTemperatureOf opts =
     (case swapsPerTemperature (optionsOrEmpty opts) of None \<Rightarrow> 10 | Some v \<Rightarrow> v)"

subsection \<open>One iteration of the inner loop\<close>

text \<open>
  \<open>Math.exp(-changeInCost / currentTemperature) > u\<close>. In JavaScript a division by zero
  is no error: with a zero temperature the quotient is \<open>-Infinity\<close> (or NaN when
  \<open>changeInCost\<close> is zero too), its exponential is \<open>0\<close> (or NaN), and the comparison
  with a draw \<open>u\<close> of \<open>[0, 1)\<close> is false. HOL's \<open>x / 0 = 0\<close> would say otherwise, so
  the case is written out.
\<close>

definition metropolis :: "real \<Rightarrow> real \<Rightarrow> real \<Rightarrow> bool" where
  "metropolis changeInCost temperature u \<longleftrightarrow>
     temperature \<noteq> 0 \<and> exp (- changeInCost / temperature) > u"

text \<open>
  The condition of lines 100-103. \<open>||\<close> short-circuits: \<open>Math.random\<close> is called (and the
  world advanced) only when the move is not an improvement.
\<close>

definition acceptance ::
  "('w \<Rightarrow> real \<times> 'w) \<Rightarrow> real \<Rightarrow> real \<Rightarrow> 'w \<Rightarrow> bool \<times> 'w" where
  "acceptance mathRandom changeInCost temperature w =
     (if changeInCost < 0 then (True, w)
      else (let (u, w') = mathRandom w in (metropolis changeInCost temperature u, w')))"

text \<open>Lines 104-105, under the condition; and lines 108-111.\<close>

definition accept_update :: "bool \<Rightarrow> 's \<Rightarrow> real \<Rightarrow> 's run_state \<Rightarrow> 's run_state" where
  "accept_update accepted neighborState neighborCost rs =
     (if accepted then rs\<lparr>currentState := neighborState, currentCost := neighborCost\<rparr> else rs)"

definition best_update :: "'s \<Rightarrow> real \<Rightarrow> 's run_state \<Rightarrow> 's run_state" where
  "best_update neighborState neighborCost rs =
     (if neighborCost < bestCost rs
      then rs\<lparr>bestState := neighborState, bestCost := neighborCost\<rparr> else rs)"

text \<open>The body of the \<open>for\<close> loop, lines 94-111, as one transformer of variables and world.\<close>

definition inner_body ::
  "('w \<Rightarrow> real \<times> 'w) \<Rightarrow> ('s, 'w) SimulatedAnnealingArgs \<Rightarrow>
     's run_state \<times> 'w \<Rightarrow> 's run_state \<times> 'w" where
  "inner_body mathRandom args cfg =
     (let (rs, w) = cfg;
          (neighborState, w1) = generateNewState args (currentState rs) w;
          (neighborCost, w2) = getCost args neighborState w1;
          changeInCost = neighborCost - currentCost rs;
          (accepted, w3) = acceptance mathRandom changeInCost (currentTemperature rs) w2
      in (best_update neighborState neighborCost
            (accept_update accepted neighborState neighborCost rs), w3))"

subsection \<open>The loops\<close>

text \<open>
  \<open>for (let i = 0; i < swapsPerTemperature; i += 1)\<close>: the bound is a number, not
  necessarily a whole one; the counter is.
\<close>

function inner_loop ::
  "('w \<Rightarrow> real \<times> 'w) \<Rightarrow> ('s, 'w) SimulatedAnnealingArgs \<Rightarrow> real \<Rightarrow> nat \<Rightarrow>
     's run_state \<times> 'w \<Rightarrow> 's run_state \<times> 'w" where
  "inner_loop mathRandom args swaps i cfg =
     (if real i < swaps
      then inner_loop mathRandom args swaps (i + 1) (inner_body mathRandom args cfg)
      else cfg)"
  by pat_completeness auto
termination
proof (relation "measure (\<lambda>(mathRandom, args, swaps, i, cfg). nat \<lceil>swaps\<rceil> - i)")
  show "wf (measure (\<lambda>(mathRandom :: 'w \<Rightarrow> real \<times> 'w, args :: ('s, 'w) SimulatedAnnealingArgs,
      swaps :: real, i :: nat, cfg :: 's run_state \<times> 'w). nat \<lceil>swaps\<rceil> - i))"
    by simp
next
  fix mathRandom :: "'w \<Rightarrow> real \<times> 'w" and args :: "('s, 'w) SimulatedAnnealingArgs"
    and swaps :: real and i :: nat and cfg :: "'s run_state \<times> 'w"
  assume "real i < swaps"
  then have "i < nat \<lceil>swaps\<rceil>" by linarith
  then show "((mathRandom, args, swaps, i + 1, inner_body mathRandom args cfg),
              (mathRandom, args, swaps, i, cfg))
             \<in> measure (\<lambda>(mathRandom, args, swaps, i, cfg). nat \<lceil>swaps\<rceil> - i)"
    by simp
qed

declare inner_loop.simps [simp del]

text \<open>Line 114: \<open>currentTemperature *= coolingFactor\<close>, a product of doubles.\<close>

definition cool :: "real \<Rightarrow> 's run_state \<times> 'w \<Rightarrow> 's run_state \<times> 'w" where
  "cool factor cfg =
     (fst cfg\<lparr>currentTemperature := binary64 (currentTemperature (fst cfg) * factor)\<rparr>, snd cfg)"

text \<open>One pass through the \<open>while\<close> body, lines 91-114.\<close>

definition outer_body ::
  "('w \<Rightarrow> real \<times> 'w) \<Rightarrow> ('s, 'w) SimulatedAnnealingArgs \<Rightarrow> real \<Rightarrow> real \<Rightarrow>
     's run_state \<times> 'w \<Rightarrow> 's run_state \<times> 'w" where
  "outer_body mathRandom args factor swaps cfg =
     cool factor (inner_loop mathRandom args swaps 0 cfg)"

text \<open>
  The \<open>while\<close> loop of lines 90-115. Nothing in the code bounds it (a cooling factor of
  \<open>1\<close> never cools), so it is a partial function: \<open>None\<close> is a run that never returns.
\<close>

partial_function (option) outer_loop ::
  "('w \<Rightarrow> real \<times> 'w) \<Rightarrow> ('s, 'w) SimulatedAnnealingArgs \<Rightarrow> real \<Rightarrow> real \<Rightarrow> real \<Rightarrow>
     's run_state \<times> 'w \<Rightarrow> ('s run_state \<times> 'w) option" where
  "outer_loop mathRandom args factor minimum swaps cfg =
     (if currentTemperature (fst cfg) > minimum
      then outer_loop mathRandom args factor minimum swaps
             (outer_body mathRandom args factor swaps cfg)
      else Some cfg)"

text \<open>Lines 80-88: the variables at the head of the first \<open>while\<close> test.\<close>

definition initial_config ::
  "('s, 'w) SimulatedAnnealingArgs \<Rightarrow> 'w \<Rightarrow> 's run_state \<times> 'w" where
  "initial_config args w =
     (let (cs, w1) = copyState args (initialState args) w;
          (cc, w2) = getCost args (initialState args) w1;
          (bs, w3) = copyState args (initialState args) w2;
          (bc, w4) = getCost args (initialState args) w3
      in (\<lparr>currentState = cs, currentCost = cc,
           currentTemperature = initialTemperatureOf (options args),
           bestState = bs, bestCost = bc\<rparr>, w4))"

text \<open>The variables when the \<open>while\<close> loop is left, if it is.\<close>

definition final_config ::
  "('w \<Rightarrow> real \<times> 'w) \<Rightarrow> ('s, 'w) SimulatedAnnealingArgs \<Rightarrow> 'w \<Rightarrow> ('s run_state \<times> 'w) option" where
  "final_config mathRandom args w =
     outer_loop mathRandom args (coolingFactorOf (options args))
       (minimumTemperatureOf (options args)) (swapsPerTemperatureOf (options args))
       (initial_config args w)"

text \<open>\<open>runSimulatedAnnealing\<close>: the returned \<open>bestState\<close>, and the world it leaves.\<close>

definition runSimulatedAnnealing ::
  "('w \<Rightarrow> real \<times> 'w) \<Rightarrow> ('s, 'w) SimulatedAnnealingArgs \<Rightarrow> 'w \<Rightarrow> ('s \<times> 'w) option" where
  "runSimulatedAnnealing mathRandom args w =
     map_option (\<lambda>cfg. (bestState (fst cfg), snd cfg)) (final_config mathRandom args w)"

section \<open>Observing a run\<close>

text \<open>
  The claims speak of what happens during a run: the neighbors generated so far, the
  values a variable takes from one iteration to the next. The functions below replay the
  two loops and list what they pass through. They add nothing to the engine: each follows
  the recursion of the loop it observes.
\<close>

text \<open>The neighbor that the iteration starting in \<open>cfg\<close> generates, its cost, and the draw
  that \<open>Math.random\<close> gives (or would give) that iteration.\<close>

definition neighborState_at :: "('s, 'w) SimulatedAnnealingArgs \<Rightarrow> 's run_state \<times> 'w \<Rightarrow> 's" where
  "neighborState_at args cfg = fst (generateNewState args (currentState (fst cfg)) (snd cfg))"

definition neighborCost_at :: "('s, 'w) SimulatedAnnealingArgs \<Rightarrow> 's run_state \<times> 'w \<Rightarrow> real" where
  "neighborCost_at args cfg =
     fst (getCost args (neighborState_at args cfg)
            (snd (generateNewState args (currentState (fst cfg)) (snd cfg))))"

definition changeInCost_at :: "('s, 'w) SimulatedAnnealingArgs \<Rightarrow> 's run_state \<times> 'w \<Rightarrow> real" where
  "changeInCost_at args cfg = neighborCost_at args cfg - currentCost (fst cfg)"

definition draw_at ::
  "('w \<Rightarrow> real \<times> 'w) \<Rightarrow> ('s, 'w) SimulatedAnnealingArgs \<Rightarrow> 's run_state \<times> 'w \<Rightarrow> real" where
  "draw_at mathRandom args cfg =
     fst (mathRandom (snd (getCost args (neighborState_at args cfg)
            (snd (generateNewState args (currentState (fst cfg)) (snd cfg))))))"

text \<open>
  The points of the inner loop: the configuration at the head of every iteration it
  executes from counter \<open>i\<close> on, each with the list \<open>h\<close> of the heads of all earlier
  iterations of the run (oldest first).
\<close>

function inner_points ::
  "('w \<Rightarrow> real \<times> 'w) \<Rightarrow> ('s, 'w) SimulatedAnnealingArgs \<Rightarrow> real \<Rightarrow> nat \<Rightarrow>
     's run_state \<times> 'w \<Rightarrow> ('s run_state \<times> 'w) list \<Rightarrow>
     (('s run_state \<times> 'w) \<times> ('s run_state \<times> 'w) list) list" where
  "inner_points mathRandom args swaps i cfg h =
     (if real i < swaps
      then (cfg, h) #
           inner_points mathRandom args swaps (i + 1) (inner_body mathRandom args cfg) (h @ [cfg])
      else [])"
  by pat_completeness auto
termination
proof (relation "measure (\<lambda>(mathRandom, args, swaps, i, cfg, h). nat \<lceil>swaps\<rceil> - i)")
  show "wf (measure (\<lambda>(mathRandom :: 'w \<Rightarrow> real \<times> 'w, args :: ('s, 'w) SimulatedAnnealingArgs,
      swaps :: real, i :: nat, cfg :: 's run_state \<times> 'w, h :: ('s run_state \<times> 'w) list).
      nat \<lceil>swaps\<rceil> - i))"
    by simp
next
  fix mathRandom :: "'w \<Rightarrow> real \<times> 'w" and args :: "('s, 'w) SimulatedAnnealingArgs"
    and swaps :: real and i :: nat and cfg :: "'s run_state \<times> 'w"
    and h :: "('s run_state \<times> 'w) list"
  assume "real i < swaps"
  then have "i < nat \<lceil>swaps\<rceil>" by linarith
  then show "((mathRandom, args, swaps, i + 1, inner_body mathRandom args cfg, h @ [cfg]),
              (mathRandom, args, swaps, i, cfg, h))
             \<in> measure (\<lambda>(mathRandom, args, swaps, i, cfg, h). nat \<lceil>swaps\<rceil> - i)"
    by simp
qed

declare inner_points.simps [simp del]

text \<open>
  The first \<open>k\<close> passes of the \<open>while\<close> loop (fewer when the loop is left before):
  the configuration they end in, the configurations at the \<open>while\<close> tests they go
  through, and the points of their inner iterations.
\<close>

fun outer_iter ::
  "('w \<Rightarrow> real \<times> 'w) \<Rightarrow> ('s, 'w) SimulatedAnnealingArgs \<Rightarrow> real \<Rightarrow> real \<Rightarrow> real \<Rightarrow> nat \<Rightarrow>
     's run_state \<times> 'w \<Rightarrow> 's run_state \<times> 'w" where
  "outer_iter mathRandom args factor minimum swaps 0 cfg = cfg"
| "outer_iter mathRandom args factor minimum swaps (Suc k) cfg =
     (if currentTemperature (fst cfg) > minimum
      then outer_iter mathRandom args factor minimum swaps k
             (outer_body mathRandom args factor swaps cfg)
      else cfg)"

fun outer_tests ::
  "('w \<Rightarrow> real \<times> 'w) \<Rightarrow> ('s, 'w) SimulatedAnnealingArgs \<Rightarrow> real \<Rightarrow> real \<Rightarrow> real \<Rightarrow> nat \<Rightarrow>
     's run_state \<times> 'w \<Rightarrow> ('s run_state \<times> 'w) list" where
  "outer_tests mathRandom args factor minimum swaps 0 cfg = [cfg]"
| "outer_tests mathRandom args factor minimum swaps (Suc k) cfg =
     cfg # (if currentTemperature (fst cfg) > minimum
            then outer_tests mathRandom args factor minimum swaps k
                   (outer_body mathRandom args factor swaps cfg)
            else [])"

fun outer_points ::
  "('w \<Rightarrow> real \<times> 'w) \<Rightarrow> ('s, 'w) SimulatedAnnealingArgs \<Rightarrow> real \<Rightarrow> real \<Rightarrow> real \<Rightarrow> nat \<Rightarrow>
     's run_state \<times> 'w \<Rightarrow> ('s run_state \<times> 'w) list \<Rightarrow>
     (('s run_state \<times> 'w) \<times> ('s run_state \<times> 'w) list) list" where
  "outer_points mathRandom args factor minimum swaps 0 cfg h = []"
| "outer_points mathRandom args factor minimum swaps (Suc k) cfg h =
     (if currentTemperature (fst cfg) > minimum
      then inner_points mathRandom args swaps 0 cfg h @
           outer_points mathRandom args factor minimum swaps k
             (outer_body mathRandom args factor swaps cfg)
             (h @ map fst (inner_points mathRandom args swaps 0 cfg h))
      else [])"

text \<open>
  The points of a run cut after \<open>k\<close> passes of the \<open>while\<close> loop: the heads of all inner
  iterations executed, then the configuration the passes end in; each with its history.
\<close>

definition run_points ::
  "('w \<Rightarrow> real \<times> 'w) \<Rightarrow> ('s, 'w) SimulatedAnnealingArgs \<Rightarrow> 'w \<Rightarrow> nat \<Rightarrow>
     (('s run_state \<times> 'w) \<times> ('s run_state \<times> 'w) list) list" where
  "run_points mathRandom args w k =
     (let factor = coolingFactorOf (options args);
          minimum = minimumTemperatureOf (options args);
          swaps = swapsPerTemperatureOf (options args);
          cfg = initial_config args w;
          ps = outer_points mathRandom args factor minimum swaps k cfg []
      in ps @ [(outer_iter mathRandom args factor minimum swaps k cfg, map fst ps)])"

text \<open>Whether the iteration starting in \<open>cfg\<close> takes its neighbor as the current state:
  the condition of lines 100-103 on that iteration's values.\<close>

definition accepted_at ::
  "('w \<Rightarrow> real \<times> 'w) \<Rightarrow> ('s, 'w) SimulatedAnnealingArgs \<Rightarrow> 's run_state \<times> 'w \<Rightarrow> bool" where
  "accepted_at mathRandom args cfg \<longleftrightarrow>
     changeInCost_at args cfg < 0 \<or>
     metropolis (changeInCost_at args cfg) (currentTemperature (fst cfg)) (draw_at mathRandom args cfg)"

text \<open>The temperatures at the successive \<open>while\<close> tests of a run cut after \<open>k\<close> passes.\<close>

definition run_temperatures ::
  "('w \<Rightarrow> real \<times> 'w) \<Rightarrow> ('s, 'w) SimulatedAnnealingArgs \<Rightarrow> 'w \<Rightarrow> nat \<Rightarrow> real list" where
  "run_temperatures mathRandom args w k =
     map (\<lambda>cfg. currentTemperature (fst cfg))
       (outer_tests mathRandom args (coolingFactorOf (options args))
          (minimumTemperatureOf (options args)) (swapsPerTemperatureOf (options args)) k
          (initial_config args w))"

text \<open>
  The copy of \<open>initialState\<close> made at entry for \<open>bestState\<close>: what the call
  \<open>copyState(initialState)\<close> of line 87 returns, in the world that the calls of lines 80
  and 81 have left.
\<close>

definition entry_copy :: "('s, 'w) SimulatedAnnealingArgs \<Rightarrow> 'w \<Rightarrow> 's" where
  "entry_copy args w =
     fst (copyState args (initialState args)
            (snd (getCost args (initialState args)
                    (snd (copyState args (initialState args) w)))))"


section \<open>What the engine asks of its caller\<close>

text \<open>
  \<open>getCost\<close> is documented as returning the total cost of the given state: the cost it
  reports for a state is the same whenever it is asked, whatever else has happened.
\<close>

definition deterministic_cost :: "('s, 'w) SimulatedAnnealingArgs \<Rightarrow> ('s \<Rightarrow> real) \<Rightarrow> bool" where
  "deterministic_cost args cost \<longleftrightarrow> (\<forall>s w. fst (getCost args s w) = cost s)"


text \<open>
  \<open>copyState\<close> is documented as returning a deeply copied state: the copy costs what
  the original costs.
\<close>

definition copy_keeps_cost :: "('s, 'w) SimulatedAnnealingArgs \<Rightarrow> ('s \<Rightarrow> real) \<Rightarrow> bool" where
  "copy_keeps_cost args cost \<longleftrightarrow> (\<forall>s w. cost (fst (copyState args s w)) = cost s)"

text \<open>
  \<open>b\<close> is the earliest cheapest element of the list \<open>xs\<close>: it occurs in it, all
  elements before that occurrence cost strictly more, and none after it costs less.
\<close>

definition earliest_cheapest :: "('s \<Rightarrow> real) \<Rightarrow> 's list \<Rightarrow> 's \<Rightarrow> bool" where
  "earliest_cheapest cost xs b \<longleftrightarrow>
     (\<exists>pre post. xs = pre @ b # post \<and> (\<forall>x \<in> set pre. cost b < cost x) \<and>
        (\<forall>x \<in> set post. cost b \<le> cost x))"

text \<open>
  States that are references. When a state is a reference into the world, what it
  denotes is its content there. For a predicate \<open>alive\<close> (the state exists in the world)
  and a function \<open>content\<close> (what it holds), \<open>keeps\<close> says that a step from \<open>w\<close> to
  \<open>w'\<close> leaves every existing state in existence and unmodified; a caller is
  \<open>mutation_free\<close> when each of its capabilities, called on an existing state, and
  \<open>Math.random\<close> do so, and \<open>copyState\<close> and \<open>generateNewState\<close> return an existing state.
\<close>

definition keeps :: "('s \<Rightarrow> 'w \<Rightarrow> bool) \<Rightarrow> ('s \<Rightarrow> 'w \<Rightarrow> 'v) \<Rightarrow> 'w \<Rightarrow> 'w \<Rightarrow> bool" where
  "keeps alive content w w' \<longleftrightarrow>
     (\<forall>s. alive s w \<longrightarrow> alive s w' \<and> content s w' = content s w)"

definition mutation_free ::
  "('w \<Rightarrow> real \<times> 'w) \<Rightarrow> ('s, 'w) SimulatedAnnealingArgs \<Rightarrow>
     ('s \<Rightarrow> 'w \<Rightarrow> bool) \<Rightarrow> ('s \<Rightarrow> 'w \<Rightarrow> 'v) \<Rightarrow> bool" where
  "mutation_free mathRandom args alive content \<longleftrightarrow>
     (\<forall>w. keeps alive content w (snd (mathRandom w))) \<and>
     (\<forall>s w. alive s w \<longrightarrow> keeps alive content w (snd (getCost args s w))) \<and>
     (\<forall>s w. alive s w \<longrightarrow>
        keeps alive content w (snd (copyState args s w)) \<and>
        alive (fst (copyState args s w)) (snd (copyState args s w))) \<and>
     (\<forall>s w. alive s w \<longrightarrow>
        keeps alive content w (snd (generateNewState args s w)) \<and>
        alive (fst (generateNewState args s w)) (snd (generateNewState args s w)))"

section \<open>A small caller\<close>

text \<open>
  States are integers, the cost of \<open>s\<close> is \<open>s\<^sup>2\<close>, the neighbor of \<open>s\<close> is
  \<open>s - 1\<close>, and the world is the list of the draws \<open>Math.random\<close> has yet to give
  (\<open>0\<close> once the list is used up). The schedule \<open>1, 1/2, 1/4\<close> makes two passes of two
  iterations each.
\<close>

definition ex_cost :: "int \<Rightarrow> real" where
  "ex_cost s = real_of_int (s * s)"

definition ex_random :: "real list \<Rightarrow> real \<times> real list" where
  "ex_random ds = (case ds of [] \<Rightarrow> (0, []) | u # us \<Rightarrow> (u, us))"

definition ex_options :: SimulatedAnnealingOptions where
  "ex_options = \<lparr>coolingFactor = Some (1 / 2), initialTemperature = Some 1,
                  minimumTemperature = Some (1 / 4), swapsPerTemperature = Some 2\<rparr>"

definition ex_args :: "(int, real list) SimulatedAnnealingArgs" where
  "ex_args = \<lparr>copyState = (\<lambda>s w. (s, w)),
               generateNewState = (\<lambda>s w. (s - 1, w)),
               getCost = (\<lambda>s w. (ex_cost s, w)),
               initialState = 2,
               options = Some ex_options\<rparr>"

text \<open>A configuration of such a caller, its world being the empty list of draws.\<close>

definition ex_cfg :: "'s \<Rightarrow> real \<Rightarrow> real \<Rightarrow> 's \<Rightarrow> real \<Rightarrow> 's run_state \<times> real list" where
  "ex_cfg s c t b bc =
     (\<lparr>currentState = s, currentCost = c, currentTemperature = t, bestState = b, bestCost = bc\<rparr>, [])"

text \<open>
  A caller whose neighbors all cost the same. A state is an integer with a tag; the
  cost is that of the integer, the neighbor of \<open>(s, tag)\<close> is \<open>(- s, tag + 10)\<close>, and
  \<open>copyState\<close> returns the same integer under the next tag, so that a copy is told
  from its original, and both from every neighbor.
\<close>

definition ex_tie_args :: "(int \<times> int, real list) SimulatedAnnealingArgs" where
  "ex_tie_args = \<lparr>copyState = (\<lambda>s w. ((fst s, snd s + 1), w)),
                   generateNewState = (\<lambda>s w. ((- fst s, snd s + 10), w)),
                   getCost = (\<lambda>s w. (ex_cost (fst s), w)),
                   initialState = (2, 0),
                   options = Some ex_options\<rparr>"

text \<open>
  The small caller under two other schedules. The first cools from \<open>1\<close> by \<open>0.75\<close>
  down to \<open>2084647712458321 * pow2 (- 65)\<close>; all three are doubles. The second starts at the
  subnormal double \<open>2 * pow2 (- 1074)\<close> (the double of the literal \<open>1e-323\<close>), and cools by
  \<open>0.75\<close> down to \<open>pow2 (- 1074)\<close>, the least positive double.
\<close>

definition drift_options :: SimulatedAnnealingOptions where
  "drift_options = \<lparr>coolingFactor = Some (3 / 4), initialTemperature = Some 1,
                     minimumTemperature = Some (2084647712458321 * pow2 (- 65)),
                     swapsPerTemperature = Some 2\<rparr>"

definition drift_args :: "(int, real list) SimulatedAnnealingArgs" where
  "drift_args = ex_args\<lparr>options := Some drift_options\<rparr>"

definition stuck_options :: SimulatedAnnealingOptions where
  "stuck_options = \<lparr>coolingFactor = Some (3 / 4), initialTemperature = Some (2 * pow2 (- 1074)),
                     minimumTemperature = Some (pow2 (- 1074)),
                     swapsPerTemperature = Some 2\<rparr>"

definition stuck_args :: "(int, real list) SimulatedAnnealingArgs" where
  "stuck_args = ex_args\<lparr>options := Some stuck_options\<rparr>"

section \<open>Two callers whose states are references\<close>

text \<open>
  The world is a heap of integer cells (a state is the address of its cell, its cost the
  cell's content) and a list of the values the next perturbations will write.
  \<open>Math.random\<close> always gives \<open>0\<close>. \<open>copyState\<close> allocates a new cell with the same
  content. The first caller perturbs the cell it is given, in place, and returns the same
  address; the second writes the perturbed content to a new cell and leaves its argument
  alone. The schedule \<open>1, 1/2\<close> makes one pass of two iterations.
\<close>

type_synonym heap_world = "int list \<times> int list"

definition hp_alive :: "nat \<Rightarrow> heap_world \<Rightarrow> bool" where
  "hp_alive a w \<longleftrightarrow> a < length (fst w)"

definition hp_content :: "nat \<Rightarrow> heap_world \<Rightarrow> int" where
  "hp_content a w = fst w ! a"

definition hp_random :: "heap_world \<Rightarrow> real \<times> heap_world" where
  "hp_random w = (0, w)"

definition hp_options :: SimulatedAnnealingOptions where
  "hp_options = \<lparr>coolingFactor = Some (1 / 2), initialTemperature = Some 1,
                  minimumTemperature = Some (1 / 2), swapsPerTemperature = Some 2\<rparr>"

definition hp_inplace_args :: "(nat, heap_world) SimulatedAnnealingArgs" where
  "hp_inplace_args =
     \<lparr>copyState = (\<lambda>a w. (length (fst w), (fst w @ [fst w ! a], snd w))),
      generateNewState = (\<lambda>a w. case snd w of [] \<Rightarrow> (a, w) | v # vs \<Rightarrow> (a, ((fst w)[a := v], vs))),
      getCost = (\<lambda>a w. (real_of_int (fst w ! a), w)),
      initialState = 0,
      options = Some hp_options\<rparr>"

definition hp_fresh_args :: "(nat, heap_world) SimulatedAnnealingArgs" where
  "hp_fresh_args =
     hp_inplace_args\<lparr>generateNewState :=
       (\<lambda>a w. case snd w of [] \<Rightarrow> (length (fst w), (fst w @ [fst w ! a], snd w))
                         | v # vs \<Rightarrow> (length (fst w), (fst w @ [v], vs)))\<rparr>"

definition hp_cfg :: "nat \<Rightarrow> real \<Rightarrow> real \<Rightarrow> nat \<Rightarrow> real \<Rightarrow> heap_world \<Rightarrow> nat run_state \<times> heap_world" where
  "hp_cfg s c t b bc w =
     (\<lparr>currentState = s, currentCost = c, currentTemperature = t, bestState = b, bestCost = bc\<rparr>, w)"

section \<open>The neighbor generation of \<open>src/index.test.ts\<close>\<close>

text \<open>
  The repository's own \<open>generateNewState\<close> and what it calls. A group is a JavaScript
  array of numbers; reading it out of range gives \<open>undefined\<close> (\<open>None\<close>), writing past
  its end extends it, and indexing \<open>undefined\<close> throws a \<open>TypeError\<close>.
\<close>

datatype js_error = TypeError

text \<open>\<open>xs[i]\<close> as a read and as a write. A negative index names a property, not an
  element: the read gives \<open>undefined\<close>, and the write leaves the elements alone.\<close>

definition js_get :: "'a option list \<Rightarrow> int \<Rightarrow> 'a option" where
  "js_get xs i = (if 0 \<le> i \<and> i < int (length xs) then xs ! nat i else None)"

definition js_set :: "'a option list \<Rightarrow> int \<Rightarrow> 'a option \<Rightarrow> 'a option list" where
  "js_set xs i v =
     (if i < 0 then xs
      else if i < int (length xs) then xs[nat i := v]
      else xs @ replicate (nat i - length xs) None @ [v])"

text \<open>Lines 26-36: \<open>state.reduce\<close> pushing a copy \<open>[...group]\<close> of every group.\<close>

definition fixture_copyState :: "real option list list \<Rightarrow> real option list list" where
  "fixture_copyState state = foldl (\<lambda>accumulator grp. accumulator @ [grp]) [] state"

text \<open>Lines 41-43: \<open>Math.floor(Math.random() * (max - min + 1)) + min\<close>.\<close>

definition generateRandomNumber :: "('w \<Rightarrow> real \<times> 'w) \<Rightarrow> int \<Rightarrow> int \<Rightarrow> 'w \<Rightarrow> int \<times> 'w" where
  "generateRandomNumber mathRandom mn mx w =
     (let (u, w') = mathRandom w in (\<lfloor>u * of_int (mx - mn + 1)\<rfloor> + mn, w'))"

text \<open>
  Lines 56-58: \<open>while (randomGroupOne === randomGroupTwo)\<close> draws the second number
  again. Nothing bounds the loop, so it is a partial function: \<open>None\<close> is a call that
  never returns.
\<close>

partial_function (option) unique_loop ::
  "('w \<Rightarrow> real \<times> 'w) \<Rightarrow> int \<Rightarrow> int \<Rightarrow> int \<Rightarrow> int \<Rightarrow> 'w \<Rightarrow> ((int \<times> int) \<times> 'w) option" where
  "unique_loop mathRandom mn mx randomGroupOne randomGroupTwo w =
     (if randomGroupOne = randomGroupTwo
      then unique_loop mathRandom mn mx randomGroupOne
             (fst (generateRandomNumber mathRandom mn mx w))
             (snd (generateRandomNumber mathRandom mn mx w))
      else Some ((randomGroupOne, randomGroupTwo), w))"

text \<open>Lines 49-61.\<close>

definition generateUniqueRandomNumbers ::
  "('w \<Rightarrow> real \<times> 'w) \<Rightarrow> int \<Rightarrow> int \<Rightarrow> 'w \<Rightarrow> ((int \<times> int) \<times> 'w) option" where
  "generateUniqueRandomNumbers mathRandom mn mx w =
     (let (randomGroupOne, w') = generateRandomNumber mathRandom mn mx w
      in unique_loop mathRandom mn mx randomGroupOne randomGroupOne w')"

text \<open>
  Lines 70-98. \<open>None\<close>: the call never returns; \<open>Inl TypeError\<close>: it throws (a group
  index outside the array, which no draw of \<open>[0, 1)\<close> produces); \<open>Inr\<close>: the state it
  returns.
\<close>

definition fixture_generateNewState ::
  "('w \<Rightarrow> real \<times> 'w) \<Rightarrow> real option list list \<Rightarrow> 'w \<Rightarrow>
     ((js_error + real option list list) \<times> 'w) option" where
  "fixture_generateNewState mathRandom groups w =
     (let numGroups = length groups in
      if numGroups = 0 then Some (Inr groups, w)
      else
        (case generateUniqueRandomNumbers mathRandom 0 (int numGroups - 1) w of
           None \<Rightarrow> None
         | Some ((g1, g2), w1) \<Rightarrow>
             (let groupSize = length (groups ! 0);
                  (i1, w2) = generateRandomNumber mathRandom 0 (int groupSize - 1) w1;
                  (i2, w3) = generateRandomNumber mathRandom 0 (int groupSize - 1) w2;
                  result = fixture_copyState groups
              in if g1 < 0 \<or> int numGroups \<le> g1 \<or> g2 < 0 \<or> int numGroups \<le> g2
                 then Some (Inl TypeError, w3)
                 else
                   (let temp = js_get (result ! nat g1) i1;
                        result1 = result[nat g1 := js_set (result ! nat g1) i1
                                                     (js_get (result ! nat g2) i2)];
                        result2 = result1[nat g2 := js_set (result1 ! nat g2) i2 temp]
                    in Some (Inr result2, w3)))))"

text \<open>\<open>Math.random\<close> returns a number of \<open>[0, 1)\<close>.\<close>

definition unit_interval :: "('w \<Rightarrow> real \<times> 'w) \<Rightarrow> bool" where
  "unit_interval mathRandom \<longleftrightarrow> (\<forall>w. 0 \<le> fst (mathRandom w) \<and> fst (mathRandom w) < 1)"

section \<open>Rounding to doubles\<close>

lemma pow2_pos [simp]: "0 < pow2 e"
  by (simp add: pow2_def)

lemma pow2_nonzero [simp]: "pow2 e \<noteq> 0"
  by (simp add: pow2_def)

lemma pow2_nonneg [simp]: "0 \<le> pow2 e"
  by (simp add: pow2_def)

lemma abs_pow2 [simp]: "\<bar>pow2 e\<bar> = pow2 e"
  by (simp add: pow2_def)

lemma pow2_add: "pow2 (a + b) = pow2 a * pow2 b"
  by (simp add: pow2_def power_int_add)

lemma pow2_diff: "pow2 (a - b) = pow2 a / pow2 b"
  by (simp add: pow2_def power_int_diff)

lemma pow2_powr: "pow2 e = 2 powr (of_int e)"
  by (simp add: pow2_def powr_real_of_int')

lemma pow2_less_iff [simp]: "pow2 a < pow2 b \<longleftrightarrow> a < b"
  by (simp add: pow2_powr)

lemma pow2_le_iff [simp]: "pow2 a \<le> pow2 b \<longleftrightarrow> a \<le> b"
  by (simp add: pow2_powr)

lemma pow2_nat: "pow2 (int n) = 2 ^ n"
  by (simp add: pow2_def)

lemma pow2_nonneg_int: "0 \<le> e \<Longrightarrow> pow2 e = of_int (2 ^ nat e)"
  by (simp add: pow2_def power_int_def)

lemma round_even_of_int [simp]: "round_even (of_int k) = k"
  by (simp add: round_even_def)

lemma round_even_le: "y \<le> of_int k \<Longrightarrow> round_even y \<le> k"
  unfolding round_even_def Let_def
  by (auto split: if_splits) linarith+

lemma round_even_ge: "of_int k \<le> y \<Longrightarrow> k \<le> round_even y"
  unfolding round_even_def Let_def
  by (auto split: if_splits) linarith+

lemma round_even_below_half: "y < of_int k - 1 / 2 \<Longrightarrow> round_even y \<le> k - 1"
  unfolding round_even_def Let_def
  by (auto split: if_splits) linarith+

lemma quantum_lower: "- 1074 \<le> quantum x"
proof (cases "\<bar>x\<bar> < pow2 (- 1022)")
  case True
  then show ?thesis by (simp add: quantum_def)
next
  case False
  then have le: "pow2 (- 1022) \<le> \<bar>x\<bar>" by simp
  then have pos: "0 < \<bar>x\<bar>" using pow2_pos [of "- 1022"] by linarith
  have "log 2 (pow2 (- 1022)) \<le> log 2 \<bar>x\<bar>"
    using le pos by simp
  then have "- 1022 \<le> log 2 \<bar>x\<bar>" by (simp add: pow2_powr)
  then have "(- 1022 :: int) \<le> \<lfloor>log 2 \<bar>x\<bar>\<rfloor>" by linarith
  moreover from False have "quantum x = \<lfloor>log 2 \<bar>x\<bar>\<rfloor> - 52" by (simp add: quantum_def)
  ultimately show ?thesis by linarith
qed

lemma quantum_bracket:
  assumes "pow2 (- 1022) \<le> \<bar>x\<bar>"
  shows "pow2 (quantum x + 52) \<le> \<bar>x\<bar> \<and> \<bar>x\<bar> < pow2 (quantum x + 53)"
proof -
  from assms have pos: "0 < \<bar>x\<bar>" using pow2_pos [of "- 1022"] by linarith
  from assms have q: "quantum x + 52 = \<lfloor>log 2 \<bar>x\<bar>\<rfloor>" by (simp add: quantum_def)
  from floor_log_eq_powr_iff [of "\<bar>x\<bar>" 2 "quantum x + 52"] pos q
  have "2 powr (of_int (quantum x + 52)) \<le> \<bar>x\<bar> \<and> \<bar>x\<bar> < 2 powr (of_int (quantum x + 52) + 1)"
    by simp
  moreover have "of_int (quantum x + 52) + 1 = (of_int (quantum x + 53) :: real)" by simp
  ultimately show ?thesis by (simp only: pow2_powr)
qed

lemma quantum_upper: "\<bar>x\<bar> < pow2 (quantum x + 53)"
proof (cases "\<bar>x\<bar> < pow2 (- 1022)")
  case True
  then have q: "quantum x = - 1074" by (simp add: quantum_def)
  have "pow2 (- 1022) \<le> pow2 (- 1074 + 53)" by (simp only: pow2_le_iff)
  with True have "\<bar>x\<bar> < pow2 (- 1074 + 53)" by linarith
  with q show ?thesis by simp
next
  case False
  then show ?thesis using quantum_bracket [of x] by simp
qed

lemma quantum_unique:
  assumes "pow2 (- 1022) \<le> \<bar>x\<bar>" "pow2 (k + 52) \<le> \<bar>x\<bar>" "\<bar>x\<bar> < pow2 (k + 53)"
  shows "quantum x = k"
proof -
  from quantum_bracket [OF assms(1)] assms(2,3)
  have "pow2 (quantum x + 52) < pow2 (k + 53)" "pow2 (k + 52) < pow2 (quantum x + 53)"
    by linarith+
  then show ?thesis by simp
qed

lemma quantum_mono:
  assumes "\<bar>x\<bar> \<le> \<bar>y\<bar>"
  shows "quantum x \<le> quantum y"
proof (cases "\<bar>x\<bar> < pow2 (- 1022)")
  case True
  then show ?thesis using quantum_lower [of y] by (simp add: quantum_def)
next
  case False
  with assms have x: "pow2 (- 1022) \<le> \<bar>x\<bar>" and y: "pow2 (- 1022) \<le> \<bar>y\<bar>" by simp_all
  from quantum_bracket [OF x] quantum_bracket [OF y] assms
  have "pow2 (quantum x + 52) < pow2 (quantum y + 53)" by linarith
  then show ?thesis by simp
qed

lemma pow2_Suc: "pow2 (q + 1) = 2 * pow2 q"
  by (simp add: pow2_def power_int_add)

lemma pow2_53: "pow2 53 = 2 ^ 53"
  using pow2_nat [of 53] by simp

lemma pow2_shift_int:
  assumes "q' \<le> q"
  shows "of_int m * pow2 q / pow2 q' = of_int (m * 2 ^ nat (q - q'))"
proof -
  have "pow2 q / pow2 q' = pow2 (q - q')" by (simp add: pow2_diff)
  also have "\<dots> = of_int (2 ^ nat (q - q'))" using assms by (simp add: pow2_nonneg_int)
  finally have "pow2 q / pow2 q' = of_int (2 ^ nat (q - q'))" .
  then have "of_int m * (pow2 q / pow2 q') = of_int m * of_int (2 ^ nat (q - q'))" by simp
  then show ?thesis by simp
qed

lemma binary64_exact:
  assumes q: "- 1074 \<le> q" and m: "\<bar>m\<bar> < 2 ^ 53"
  shows "binary64 (of_int m * pow2 q) = of_int m * pow2 q"
proof -
  let ?y = "of_int m * pow2 q :: real"
  have abs: "\<bar>?y\<bar> = of_int \<bar>m\<bar> * pow2 q" by (simp add: abs_mult)
  have le: "quantum ?y \<le> q"
  proof (cases "\<bar>?y\<bar> < pow2 (- 1022)")
    case True
    with q show ?thesis by (simp add: quantum_def)
  next
    case False
    then have "pow2 (quantum ?y + 52) \<le> \<bar>?y\<bar>" using quantum_bracket [of ?y] by simp
    moreover have "\<bar>?y\<bar> < pow2 (q + 53)"
    proof -
      from m have "(of_int \<bar>m\<bar> :: real) < of_int (2 ^ 53)" by (simp only: of_int_less_iff)
      then have "(of_int \<bar>m\<bar> :: real) < 2 ^ 53" by simp
      then have "of_int \<bar>m\<bar> * pow2 q < 2 ^ 53 * pow2 q"
        by (rule mult_strict_right_mono) simp
      also have "2 ^ 53 * pow2 q = pow2 (q + 53)" by (simp add: pow2_add pow2_53)
      finally show ?thesis by (simp only: abs)
    qed
    ultimately have "pow2 (quantum ?y + 52) < pow2 (q + 53)" by linarith
    then show ?thesis by simp
  qed
  have eq: "?y / pow2 (quantum ?y) = of_int (m * 2 ^ nat (q - quantum ?y))"
    by (rule pow2_shift_int [OF le])
  have "round_even (?y / pow2 (quantum ?y)) = m * 2 ^ nat (q - quantum ?y)"
    by (simp only: eq round_even_of_int)
  then have "binary64 ?y = of_int (m * 2 ^ nat (q - quantum ?y)) * pow2 (quantum ?y)"
    by (simp only: binary64_def)
  also have "\<dots> = ?y / pow2 (quantum ?y) * pow2 (quantum ?y)"
    by (simp only: eq)
  also have "\<dots> = ?y" by simp
  finally show ?thesis .
qed

lemma binary64_nonneg:
  assumes "0 \<le> x"
  shows "0 \<le> binary64 x"
proof -
  from assms have "of_int 0 \<le> x / pow2 (quantum x)" by simp
  from round_even_ge [OF this] show ?thesis by (simp add: binary64_def)
qed

lemma binary64_le_double:
  assumes t: "is_double t" and x: "0 < x" "x \<le> t"
  shows "binary64 x \<le> t"
proof -
  define n where "n = round_even (t / pow2 (quantum t))"
  from t have grid: "t = of_int n * pow2 (quantum t)"
    by (simp add: is_double_def binary64_def n_def)
  from x have "\<bar>x\<bar> \<le> \<bar>t\<bar>" by simp
  from quantum_mono [OF this] have le: "quantum x \<le> quantum t" .
  have "t / pow2 (quantum x) = of_int n * pow2 (quantum t) / pow2 (quantum x)"
    using grid by simp
  also have "\<dots> = of_int (n * 2 ^ nat (quantum t - quantum x))"
    by (rule pow2_shift_int [OF le])
  finally have T: "t / pow2 (quantum x) = of_int (n * 2 ^ nat (quantum t - quantum x))" .
  from x(2) have "x / pow2 (quantum x) \<le> t / pow2 (quantum x)"
    by (rule divide_right_mono) simp
  with T have "x / pow2 (quantum x) \<le> of_int (n * 2 ^ nat (quantum t - quantum x))" by simp
  from round_even_le [OF this]
  have "(of_int (round_even (x / pow2 (quantum x))) :: real) \<le>
      of_int (n * 2 ^ nat (quantum t - quantum x))" by (simp only: of_int_le_iff)
  then have "of_int (round_even (x / pow2 (quantum x))) * pow2 (quantum x) \<le>
      of_int (n * 2 ^ nat (quantum t - quantum x)) * pow2 (quantum x)"
    by (rule mult_right_mono) simp
  then have "binary64 x \<le> of_int (n * 2 ^ nat (quantum t - quantum x)) * pow2 (quantum x)"
    by (simp only: binary64_def)
  also have "\<dots> = t / pow2 (quantum x) * pow2 (quantum x)" by (simp only: T)
  also have "\<dots> = t" by simp
  finally show ?thesis .
qed

lemma binary64_is_double: "is_double (binary64 x)"
proof -
  define q where "q = quantum x"
  define n where "n = round_even (x / pow2 q)"
  have q: "- 1074 \<le> q" by (simp add: q_def quantum_lower)
  have val: "binary64 x = of_int n * pow2 q" by (simp add: binary64_def n_def q_def)
  define y where "y = x / pow2 q"
  have bound: "\<bar>y\<bar> < 2 ^ 53"
  proof -
    have "\<bar>x\<bar> < pow2 q * 2 ^ 53" using quantum_upper [of x] by (simp add: q_def pow2_add pow2_53)
    then show ?thesis by (simp add: y_def pos_divide_less_eq mult.commute)
  qed
  then have "y \<le> of_int (2 ^ 53)" "of_int (- (2 ^ 53)) \<le> y" by simp_all
  then have "x / pow2 q \<le> of_int (2 ^ 53)" "of_int (- (2 ^ 53)) \<le> x / pow2 q"
    by (simp_all only: y_def)
  from round_even_le [OF this(1)] round_even_ge [OF this(2)]
  have n: "n \<le> 2 ^ 53" "- (2 ^ 53) \<le> n" by (simp_all add: n_def)
  consider "\<bar>n\<bar> < 2 ^ 53" | "n = 2 ^ 53" | "n = - (2 ^ 53)" using n by linarith
  then have "binary64 (of_int n * pow2 q) = of_int n * pow2 q"
  proof cases
    case 1
    then show ?thesis by (rule binary64_exact [OF q])
  next
    case 2
    have "of_int n * pow2 q = of_int (2 ^ 52) * pow2 (q + 1)"
      by (simp add: 2 pow2_Suc)
    moreover have "binary64 (of_int (2 ^ 52) * pow2 (q + 1)) = of_int (2 ^ 52) * pow2 (q + 1)"
      by (rule binary64_exact) (use q in simp_all)
    ultimately show ?thesis by simp
  next
    case 3
    have "of_int n * pow2 q = of_int (- (2 ^ 52)) * pow2 (q + 1)"
      by (simp add: 3 pow2_Suc)
    moreover have "binary64 (of_int (- (2 ^ 52)) * pow2 (q + 1)) = of_int (- (2 ^ 52)) * pow2 (q + 1)"
      by (rule binary64_exact) (use q in simp_all)
    ultimately show ?thesis by simp
  qed
  then show ?thesis by (simp add: is_double_def val)
qed

lemma double_below_one:
  assumes f: "is_double f" "f < 1"
  shows "f \<le> 1 - pow2 (- 53)"
proof (rule ccontr)
  assume "\<not> f \<le> 1 - pow2 (- 53)"
  then have low: "1 - pow2 (- 53) < f" by simp
  have half: "pow2 (- 53) \<le> 1 / 2" using pow2_le_iff [of "- 53" "- 1"] by (simp add: pow2_def)
  with low have f1: "pow2 (- 1) \<le> f" by (simp add: pow2_def)
  then have pos: "0 < f" using pow2_pos [of "- 1"] by linarith
  have "pow2 (- 1022) \<le> pow2 (- 1)" by (simp only: pow2_le_iff)
  moreover from pos have "\<bar>f\<bar> = f" by simp
  ultimately have norm: "pow2 (- 1022) \<le> \<bar>f\<bar>" using f1 by linarith
  have qf: "quantum f = - 53"
    by (rule quantum_unique [OF norm]) (use f1 pos f(2) in \<open>simp_all add: pow2_def\<close>)
  define n where "n = round_even (f / pow2 (quantum f))"
  from f(1) have "of_int n * pow2 (quantum f) = f"
    by (simp only: is_double_def binary64_def n_def)
  then have n: "f = of_int n * pow2 (- 53)" by (simp only: qf)
  have "pow2 (- 53 + 53) = pow2 (- 53) * pow2 53" by (rule pow2_add)
  moreover have "pow2 (- 53 + 53) = 1" by (simp add: pow2_def)
  ultimately have "pow2 (- 53) * 2 ^ 53 = 1" by (simp only: pow2_53)
  then have p: "pow2 (- 53) = 1 / 2 ^ 53" by (simp add: eq_divide_eq)
  from low n have "1 - 1 / 2 ^ 53 < (of_int n :: real) / 2 ^ 53" by (simp add: p)
  then have "(of_int (2 ^ 53 - 1) :: real) < of_int n" by (simp add: field_simps)
  then have lo: "2 ^ 53 - 1 < n" by (simp only: of_int_less_iff)
  from f(2) n have "(of_int n :: real) / 2 ^ 53 < 1" by (simp add: p)
  then have "(of_int n :: real) < of_int (2 ^ 53)" by (simp add: field_simps)
  then have "n < 2 ^ 53" by (simp only: of_int_less_iff)
  with lo show False by linarith
qed

lemma pow2_52: "pow2 52 = 2 ^ 52"
  using pow2_nat [of 52] by simp

lemma pow2_pred: "pow2 (q - 1) = pow2 q / 2"
  using pow2_Suc [of "q - 1"] by simp

lemma is_double_grid:
  assumes "is_double t"
  shows "t = of_int (round_even (t / pow2 (quantum t))) * pow2 (quantum t)"
  using assms by (simp only: is_double_def binary64_def)

lemma binary64_product_below:
  assumes t: "is_double t" "pow2 (- 1022) < t" and f: "0 < f" "f \<le> 1 - pow2 (- 53)"
  shows "binary64 (t * f) < t"
proof -
  define q where "q = quantum t"
  define n where "n = round_even (t / pow2 q)"
  define x where "x = t * f"
  have tpos: "0 < t" using t(2) pow2_pos [of "- 1022"] by linarith
  have grid: "t = of_int n * pow2 q"
    using is_double_grid [OF t(1)] by (simp only: n_def q_def)
  have q: "- 1074 \<le> q" by (simp add: q_def quantum_lower)
  have norm: "pow2 (- 1022) \<le> \<bar>t\<bar>" using t(2) tpos by simp
  from quantum_bracket [OF norm] tpos
  have lo: "pow2 (q + 52) \<le> t" and hi: "t < pow2 (q + 53)" by (simp_all add: q_def)
  have p52: "pow2 (q + 52) = 2 ^ 52 * pow2 q" by (simp add: pow2_add pow2_52)
  have p53: "pow2 (q + 53) = 2 ^ 53 * pow2 q" by (simp add: pow2_add pow2_53)
  from lo have "2 ^ 52 * pow2 q \<le> of_int n * pow2 q" by (simp only: p52 grid [symmetric])
  then have "(of_int (2 ^ 52) :: real) \<le> of_int n" by simp
  then have n_lo: "2 ^ 52 \<le> n" by (simp only: of_int_le_iff)
  from hi have "of_int n * pow2 q < 2 ^ 53 * pow2 q" by (simp only: p53 grid [symmetric])
  then have "(of_int n :: real) < of_int (2 ^ 53)" by simp
  then have n_hi: "n < 2 ^ 53" by (simp only: of_int_less_iff)
  have xpos: "0 < x" using tpos f(1) by (simp add: x_def)
  have "t * f \<le> t * (1 - pow2 (- 53))" using f(2) tpos by simp
  then have x_le: "x \<le> t - t * pow2 (- 53)" by (simp add: x_def algebra_simps)
  have shift: "pow2 (q + 52) * pow2 (- 53) = pow2 (q - 1)"
    using pow2_add [of "q + 52" "- 53"] by simp
  show ?thesis
  proof (cases "n = 2 ^ 52")
    case True
    then have tval: "t = pow2 (q + 52)" using grid by (simp add: p52)
    with t(2) have "pow2 (- 1022) < pow2 (q + 52)" by simp
    then have q1: "- 1074 \<le> q - 1" by simp
    define P where "P = of_int (2 ^ 53 - 1) * pow2 (q - 1)"
    have "binary64 P = P" unfolding P_def by (rule binary64_exact [OF q1]) simp
    then have dP: "is_double P" by (simp add: is_double_def)
    have "P = 2 ^ 53 * pow2 (q - 1) - pow2 (q - 1)" by (simp add: P_def algebra_simps)
    also have "2 ^ 53 * pow2 (q - 1) = pow2 (q + 52)"
      using pow2_add [of 53 "q - 1"] by (simp add: pow2_53 add.commute)
    finally have Pval: "P = t - pow2 (q - 1)" by (simp add: tval)
    from x_le have "x \<le> P" by (simp add: Pval tval shift)
    from binary64_le_double [OF dP xpos this] have "binary64 x \<le> P" .
    also have "P < t" by (simp add: Pval)
    finally show ?thesis by (simp add: x_def)
  next
    case False
    with n_lo have n1: "2 ^ 52 \<le> n - 1" by linarith
    define P where "P = of_int (n - 1) * pow2 q"
    have "binary64 P = P" unfolding P_def by (rule binary64_exact [OF q]) (use n1 n_hi in simp)
    then have dP: "is_double P" by (simp add: is_double_def)
    have Pval: "P = t - pow2 q" by (simp add: P_def grid algebra_simps)
    have Plt: "P < t" by (simp add: Pval)
    show ?thesis
    proof (cases "x \<le> P")
      case True
      from binary64_le_double [OF dP xpos True] Plt show ?thesis by (simp add: x_def)
    next
      case False
      then have Px: "P < x" by simp
      from n1 have "(of_int (2 ^ 52) :: real) \<le> of_int (n - 1)" by (simp only: of_int_le_iff)
      then have "2 ^ 52 * pow2 q \<le> of_int (n - 1) * pow2 q" by simp
      then have P_lo: "pow2 (q + 52) \<le> P" by (simp only: p52 P_def)
      from x_le tpos have x_lt: "x < t" using pow2_pos [of "- 53"]
        by (smt (verit) mult_pos_pos)
      have x1: "pow2 (q + 52) \<le> \<bar>x\<bar>" using P_lo Px xpos by simp
      have x2: "\<bar>x\<bar> < pow2 (q + 53)" using x_lt hi xpos by simp
      have "pow2 (- 1022) \<le> pow2 (q + 52)" using q by simp
      with x1 have x0: "pow2 (- 1022) \<le> \<bar>x\<bar>" by linarith
      have qx: "quantum x = q" by (rule quantum_unique [OF x0 x1 x2])
      have "pow2 (q + 52) < t"
      proof -
        from \<open>n \<noteq> 2 ^ 52\<close> n_lo have "2 ^ 52 < n" by linarith
        then have "(of_int (2 ^ 52) :: real) < of_int n" by (simp only: of_int_less_iff)
        then have "2 ^ 52 * pow2 q < of_int n * pow2 q" by simp
        then show ?thesis by (simp only: p52 grid [symmetric])
      qed
      then have "pow2 (q + 52) * pow2 (- 53) < t * pow2 (- 53)" by simp
      then have "pow2 q / 2 < t * pow2 (- 53)" by (simp only: shift pow2_pred)
      with x_le have "x < t - pow2 q / 2" by linarith
      then have "x / pow2 q < (t - pow2 q / 2) / pow2 q" by (simp add: divide_strict_right_mono)
      also have "(t - pow2 q / 2) / pow2 q = of_int n - 1 / 2"
        by (simp add: grid diff_divide_distrib)
      finally have "round_even (x / pow2 q) \<le> n - 1" by (rule round_even_below_half)
      then have "(of_int (round_even (x / pow2 q)) :: real) \<le> of_int (n - 1)"
        by (simp only: of_int_le_iff)
      then have "of_int (round_even (x / pow2 q)) * pow2 q \<le> of_int (n - 1) * pow2 q"
        by (rule mult_right_mono) simp
      then have "binary64 x \<le> P" by (simp only: binary64_def qx P_def)
      with Plt show ?thesis by (simp add: x_def)
    qed
  qed
qed

lemma binary64_half [simp]: "binary64 (1 / 2) = 1 / 2"
  using binary64_exact [of "- 1" 1] by (simp add: pow2_def)

lemma binary64_quarter [simp]: "binary64 (1 / 4) = 1 / 4"
  using binary64_exact [of "- 2" 1] by (simp add: pow2_def)

lemma binary64_zero [simp]: "binary64 0 = 0"
  using binary64_exact [of 0 0] by simp

lemma round_even_three_halves: "round_even (3 / 2) = 2"
proof -
  have "\<lfloor>3 / 2 :: real\<rfloor> = 1" by linarith
  then show ?thesis by (simp add: round_even_def)
qed

lemma cooled_temperature_step:
  assumes f: "0 < f" "f < 1" "is_double f" and t: "is_double t" "0 \<le> t"
  shows "binary64 (t * f) \<le> t \<and> (pow2 (- 1022) < t \<longrightarrow> binary64 (t * f) < t) \<and>
         is_double (binary64 (t * f)) \<and> 0 \<le> binary64 (t * f)"
proof (cases "t = 0")
  case True
  then show ?thesis using pow2_nonneg [of "- 1022"] by (simp add: is_double_def not_less)
next
  case False
  with t(2) have tpos: "0 < t" by simp
  with f have x: "0 < t * f" "t * f \<le> t" by simp_all
  from binary64_le_double [OF t(1) x] have le: "binary64 (t * f) \<le> t" .
  from double_below_one [OF f(3) f(2)] have "f \<le> 1 - pow2 (- 53)" .
  then have "binary64 (t * f) < t" if "pow2 (- 1022) < t"
    using binary64_product_below [OF t(1) that f(1)] by simp
  moreover from x(1) have "0 \<le> binary64 (t * f)" by (simp add: binary64_nonneg)
  ultimately show ?thesis using le binary64_is_double by blast
qed

lemma is_double_simple [simp]: "is_double 1" "is_double (1 / 2)" "is_double (1 / 4)" "is_double (3 / 4)"
  using binary64_exact [of 0 1] binary64_exact [of "- 2" 3]
  by (simp_all add: is_double_def pow2_def)

section \<open>Basic facts about the loops\<close>

lemma fst_inner_body:
  "fst (inner_body mathRandom args cfg) =
     best_update (neighborState_at args cfg) (neighborCost_at args cfg)
       (accept_update (accepted_at mathRandom args cfg) (neighborState_at args cfg)
          (neighborCost_at args cfg) (fst cfg))"
  by (simp add: inner_body_def acceptance_def accepted_at_def changeInCost_at_def
      neighborCost_at_def neighborState_at_def draw_at_def Let_def split: prod.splits)

lemma temperature_accept_update [simp]:
  "currentTemperature (accept_update a s c rs) = currentTemperature rs"
  by (simp add: accept_update_def)

lemma temperature_best_update [simp]:
  "currentTemperature (best_update s c rs) = currentTemperature rs"
  by (simp add: best_update_def)

lemma temperature_inner_body [simp]:
  "currentTemperature (fst (inner_body mathRandom args cfg)) = currentTemperature (fst cfg)"
  by (simp add: fst_inner_body)

lemma inner_loop_funpow:
  "inner_loop mathRandom args swaps i cfg =
     (inner_body mathRandom args ^^ (nat \<lceil>swaps\<rceil> - i)) cfg"
proof (induction mathRandom args swaps i cfg rule: inner_loop.induct)
  case (1 mathRandom args swaps i cfg)
  show ?case
  proof (cases "real i < swaps")
    case True
    then have "i < nat \<lceil>swaps\<rceil>" by linarith
    then have "nat \<lceil>swaps\<rceil> - i = Suc (nat \<lceil>swaps\<rceil> - (i + 1))" by simp
    with True "1.IH" show ?thesis
      by (subst inner_loop.simps) (simp add: funpow_swap1)
  next
    case False
    then have "nat \<lceil>swaps\<rceil> \<le> i" by linarith
    with False show ?thesis
      by (subst inner_loop.simps) simp
  qed
qed

lemma temperature_funpow_inner_body [simp]:
  "currentTemperature (fst ((inner_body mathRandom args ^^ n) cfg)) = currentTemperature (fst cfg)"
  by (induction n) simp_all

lemma temperature_inner_loop [simp]:
  "currentTemperature (fst (inner_loop mathRandom args swaps i cfg)) = currentTemperature (fst cfg)"
  by (simp add: inner_loop_funpow)

lemma temperature_outer_body [simp]:
  "currentTemperature (fst (outer_body mathRandom args factor swaps cfg)) =
     binary64 (currentTemperature (fst cfg) * factor)"
  by (simp add: outer_body_def cool_def)

lemma outer_loop_outer_iter:
  "\<not> currentTemperature (fst (outer_iter mathRandom args factor minimum swaps k cfg)) > minimum \<Longrightarrow>
   outer_loop mathRandom args factor minimum swaps cfg =
     Some (outer_iter mathRandom args factor minimum swaps k cfg)"
proof (induction k arbitrary: cfg)
  case 0
  then show ?case by (subst outer_loop.simps) simp
next
  case (Suc k)
  show ?case
  proof (cases "currentTemperature (fst cfg) > minimum")
    case True
    with Suc.prems have "\<not> currentTemperature (fst (outer_iter mathRandom args factor minimum swaps k
        (outer_body mathRandom args factor swaps cfg))) > minimum" by simp
    from Suc.IH [OF this] True show ?thesis
      by (subst outer_loop.simps) simp
  next
    case False
    then show ?thesis by (subst outer_loop.simps) simp
  qed
qed

lemma outer_loop_Some_outer_iter:
  fixes mathRandom :: "'w \<Rightarrow> real \<times> 'w" and args :: "('s, 'w) SimulatedAnnealingArgs"
  assumes "outer_loop mathRandom args factor minimum swaps cfg = Some e"
  shows "\<exists>k. e = outer_iter mathRandom args factor minimum swaps k cfg \<and>
       \<not> currentTemperature (fst e) > minimum"
  using assms
proof (rule outer_loop.raw_induct [where P = "\<lambda>mathRandom args factor minimum swaps cfg e.
     \<exists>k. e = outer_iter mathRandom args factor minimum swaps k cfg \<and>
         \<not> currentTemperature (fst e) > minimum", rotated])
  fix loop and mathRandom :: "'w \<Rightarrow> real \<times> 'w" and args :: "('s, 'w) SimulatedAnnealingArgs"
    and factor minimum swaps :: real and cfg e :: "'s run_state \<times> 'w"
  assume IH: "\<And>mathRandom args factor minimum swaps cfg e.
              loop mathRandom args factor minimum swaps cfg = Some e \<Longrightarrow>
              \<exists>k. e = outer_iter mathRandom args factor minimum swaps k cfg \<and>
                  \<not> currentTemperature (fst e) > minimum"
    and eq: "(if minimum < currentTemperature (fst cfg)
               then loop mathRandom args factor minimum swaps
                      (outer_body mathRandom args factor swaps cfg)
               else Some cfg) = Some e"
  show "\<exists>k. e = outer_iter mathRandom args factor minimum swaps k cfg \<and>
         \<not> currentTemperature (fst e) > minimum"
  proof (cases "currentTemperature (fst cfg) > minimum")
    case True
    with eq have "loop mathRandom args factor minimum swaps
        (outer_body mathRandom args factor swaps cfg) = Some e" by simp
    from IH [OF this] obtain k where
      k: "e = outer_iter mathRandom args factor minimum swaps k
                (outer_body mathRandom args factor swaps cfg)"
      and stop: "\<not> currentTemperature (fst e) > minimum" by blast
    from k True have "e = outer_iter mathRandom args factor minimum swaps (Suc k) cfg" by simp
    with stop show ?thesis by blast
  next
    case False
    with eq have e: "e = outer_iter mathRandom args factor minimum swaps 0 cfg" by simp
    from False eq have "\<not> currentTemperature (fst e) > minimum" by auto
    with e show ?thesis by blast
  qed
qed

lemma inner_points_invariant:
  fixes mathRandom :: "'w \<Rightarrow> real \<times> 'w" and args :: "('s, 'w) SimulatedAnnealingArgs"
  assumes "\<And>c h. I c h \<Longrightarrow> I (inner_body mathRandom args c) (h @ [c])"
    and "I cfg h"
  shows "(\<forall>p \<in> set (inner_points mathRandom args swaps i cfg h). I (fst p) (snd p)) \<and>
         I (inner_loop mathRandom args swaps i cfg)
           (h @ map fst (inner_points mathRandom args swaps i cfg h))"
  using assms
proof (induction mathRandom args swaps i cfg h rule: inner_points.induct)
  case (1 mathRandom args swaps i cfg h)
  show ?case
  proof (cases "real i < swaps")
    case True
    have "I (inner_body mathRandom args cfg) (h @ [cfg])"
      using "1.prems" by blast
    from "1.IH" [OF True "1.prems"(1) this] True "1.prems"(2) show ?thesis
      by (subst inner_points.simps, subst inner_loop.simps, subst (2) inner_points.simps) simp
  next
    case False
    with "1.prems"(2) show ?thesis
      by (subst inner_points.simps, subst inner_loop.simps, subst (2) inner_points.simps) simp
  qed
qed

lemma outer_points_invariant:
  fixes mathRandom :: "'w \<Rightarrow> real \<times> 'w" and args :: "('s, 'w) SimulatedAnnealingArgs"
  assumes step: "\<And>c h. I c h \<Longrightarrow> I (inner_body mathRandom args c) (h @ [c])"
    and cooled: "\<And>c h. I c h \<Longrightarrow> I (cool factor c) h"
    and start: "I cfg h"
  shows "(\<forall>p \<in> set (outer_points mathRandom args factor minimum swaps k cfg h). I (fst p) (snd p)) \<and>
         I (outer_iter mathRandom args factor minimum swaps k cfg)
           (h @ map fst (outer_points mathRandom args factor minimum swaps k cfg h))"
  using start
proof (induction k arbitrary: cfg h)
  case 0
  then show ?case by simp
next
  case (Suc k)
  show ?case
  proof (cases "currentTemperature (fst cfg) > minimum")
    case True
    let ?ps = "inner_points mathRandom args swaps 0 cfg h"
    from inner_points_invariant [of I mathRandom args cfg h swaps 0, OF step Suc.prems]
    have inner: "\<forall>p \<in> set ?ps. I (fst p) (snd p)"
      and after: "I (inner_loop mathRandom args swaps 0 cfg) (h @ map fst ?ps)"
      by blast+
    from cooled [OF after]
    have "I (outer_body mathRandom args factor swaps cfg) (h @ map fst ?ps)"
      by (simp add: outer_body_def)
    from Suc.IH [OF this] inner True show ?thesis
      by (auto simp: Ball_def)
  next
    case False
    with Suc.prems show ?thesis by simp
  qed
qed

lemma run_points_invariant:
  fixes mathRandom :: "'w \<Rightarrow> real \<times> 'w" and args :: "('s, 'w) SimulatedAnnealingArgs"
  assumes step: "\<And>c h. I c h \<Longrightarrow> I (inner_body mathRandom args c) (h @ [c])"
    and cooled: "\<And>c h. I c h \<Longrightarrow> I (cool (coolingFactorOf (options args)) c) h"
    and start: "I (initial_config args w) []"
  shows "\<forall>p \<in> set (run_points mathRandom args w k). I (fst p) (snd p)"
  using outer_points_invariant [of I mathRandom args "coolingFactorOf (options args)"
      "initial_config args w" "[]" "minimumTemperatureOf (options args)"
      "swapsPerTemperatureOf (options args)" k, OF step cooled start]
  by (simp add: run_points_def Let_def)

lemma run_points_last:
  "run_points mathRandom args w k \<noteq> [] \<and>
   map fst (run_points mathRandom args w k) =
     snd (last (run_points mathRandom args w k)) @ [fst (last (run_points mathRandom args w k))] \<and>
   fst (last (run_points mathRandom args w k)) =
     outer_iter mathRandom args (coolingFactorOf (options args))
       (minimumTemperatureOf (options args)) (swapsPerTemperatureOf (options args)) k
       (initial_config args w)"
  by (simp add: run_points_def Let_def)

lemma final_config_last_point:
  fixes mathRandom :: "'w \<Rightarrow> real \<times> 'w" and args :: "('s, 'w) SimulatedAnnealingArgs"
  assumes "final_config mathRandom args w = Some e"
  shows "\<exists>k. e = fst (last (run_points mathRandom args w k))"
  using outer_loop_Some_outer_iter [OF assms [unfolded final_config_def]]
  by (auto simp: run_points_last)

lemma bestCost_inner_body:
  "bestCost (fst (inner_body mathRandom args cfg)) =
     min (bestCost (fst cfg)) (neighborCost_at args cfg)"
  by (simp add: fst_inner_body best_update_def accept_update_def)

lemma bestCost_cool [simp]: "bestCost (fst (cool factor cfg)) = bestCost (fst cfg)"
  by (simp add: cool_def)

lemma currentCost_cool [simp]: "currentCost (fst (cool factor cfg)) = currentCost (fst cfg)"
  by (simp add: cool_def)

lemma bestState_cool [simp]: "bestState (fst (cool factor cfg)) = bestState (fst cfg)"
  by (simp add: cool_def)

lemma currentState_cool [simp]: "currentState (fst (cool factor cfg)) = currentState (fst cfg)"
  by (simp add: cool_def)

lemma snd_cool [simp]: "snd (cool factor cfg) = snd cfg"
  by (simp add: cool_def)

lemma current_inner_body:
  "currentState (fst (inner_body mathRandom args cfg)) =
     (if accepted_at mathRandom args cfg then neighborState_at args cfg else currentState (fst cfg))"
  "currentCost (fst (inner_body mathRandom args cfg)) =
     (if accepted_at mathRandom args cfg then neighborCost_at args cfg else currentCost (fst cfg))"
  by (simp_all add: fst_inner_body best_update_def accept_update_def)

lemma best_inner_body:
  "bestState (fst (inner_body mathRandom args cfg)) =
     (if neighborCost_at args cfg < bestCost (fst cfg) then neighborState_at args cfg
      else bestState (fst cfg))"
  "bestCost (fst (inner_body mathRandom args cfg)) =
     (if neighborCost_at args cfg < bestCost (fst cfg) then neighborCost_at args cfg
      else bestCost (fst cfg))"
  by (simp_all add: fst_inner_body best_update_def accept_update_def)

lemma best_le_current_inner_body:
  assumes "bestCost (fst cfg) \<le> currentCost (fst cfg)"
  shows "bestCost (fst (inner_body mathRandom args cfg)) \<le>
         currentCost (fst (inner_body mathRandom args cfg))"
  using assms by (simp add: current_inner_body best_inner_body)

lemma initial_config_costs:
  "deterministic_cost args cost \<Longrightarrow>
   currentCost (fst (initial_config args w)) = cost (initialState args) \<and>
   bestCost (fst (initial_config args w)) = cost (initialState args)"
  unfolding deterministic_cost_def initial_config_def Let_def
  by (auto split: prod.splits) (metis fst_conv)+

lemma bestCost_points_sorted:
  fixes mathRandom :: "'w \<Rightarrow> real \<times> 'w" and args :: "('s, 'w) SimulatedAnnealingArgs"
  shows "sorted_wrt (\<ge>) (map (\<lambda>p. bestCost (fst (fst p))) (run_points mathRandom args w k))"
proof -
  let ?I = "\<lambda>c h. sorted_wrt (\<ge>) (map (\<lambda>c. bestCost (fst c)) (h @ [c]))"
  have step: "?I (inner_body mathRandom args c) (h @ [c])" if "?I c h" for c h
  proof -
    have "bestCost (fst (inner_body mathRandom args c)) \<le> bestCost (fst c)"
      by (simp add: bestCost_inner_body)
    with that show ?thesis
      by (auto simp: sorted_wrt_append)
  qed
  have cooled: "?I (cool (coolingFactorOf (options args)) c) h" if "?I c h"
    for c :: "'s run_state \<times> 'w" and h
    using that by (simp add: sorted_wrt_append)
  have "\<forall>p \<in> set (run_points mathRandom args w k). ?I (fst p) (snd p)"
    by (rule run_points_invariant [of ?I, OF step cooled]) simp_all
  moreover have "last (run_points mathRandom args w k) \<in> set (run_points mathRandom args w k)"
    by (simp add: run_points_last)
  ultimately have "?I (fst (last (run_points mathRandom args w k)))
      (snd (last (run_points mathRandom args w k)))" by blast
  then have "sorted_wrt (\<ge>) (map (\<lambda>c. bestCost (fst c)) (map fst (run_points mathRandom args w k)))"
    using run_points_last [of mathRandom args w k] by simp
  then show ?thesis by (simp add: comp_def)
qed

lemma best_le_current_points:
  assumes "deterministic_cost args cost"
  shows "\<forall>p \<in> set (run_points mathRandom args w k).
           bestCost (fst (fst p)) \<le> currentCost (fst (fst p))"
  by (rule run_points_invariant [of "\<lambda>c h. bestCost (fst c) \<le> currentCost (fst c)"])
     (simp_all add: best_le_current_inner_body initial_config_costs [OF assms])




lemma initial_temperature [simp]:
  "currentTemperature (fst (initial_config args w)) = initialTemperatureOf (options args)"
  by (simp add: initial_config_def Let_def split: prod.splits)

lemma neighborCost_deterministic:
  "deterministic_cost args cost \<Longrightarrow> neighborCost_at args cfg = cost (neighborState_at args cfg)"
  by (simp add: deterministic_cost_def neighborCost_at_def)

lemma bestState_initial_config:
  "bestState (fst (initial_config args w)) = entry_copy args w"
  by (simp add: initial_config_def entry_copy_def Let_def split: prod.splits)

lemma entry_copy_cost:
  assumes "copy_keeps_cost args cost"
  shows "cost (entry_copy args w) = cost (initialState args)"
  using assms by (simp add: copy_keeps_cost_def entry_copy_def)

lemma earliest_cheapest_lower_bound:
  "earliest_cheapest cost xs b \<Longrightarrow> b \<in> set xs \<and> (\<forall>x \<in> set xs. cost b \<le> cost x)"
  by (fastforce simp: earliest_cheapest_def)

lemma earliest_cheapest_Min:
  assumes "earliest_cheapest cost xs b"
  shows "cost b = Min (cost ` set xs)"
proof -
  from earliest_cheapest_lower_bound [OF assms]
  have "b \<in> set xs" and "\<forall>x \<in> set xs. cost b \<le> cost x" by blast+
  then show ?thesis
    by (intro Min_eqI [symmetric]) auto
qed

lemma earliest_cheapest_snoc_better:
  assumes "earliest_cheapest cost xs b" "cost y < cost b"
  shows "earliest_cheapest cost (xs @ [y]) y"
proof -
  from earliest_cheapest_lower_bound [OF assms(1)] assms(2)
  have "\<forall>x \<in> set xs. cost y < cost x" by fastforce
  then have "xs @ [y] = xs @ y # [] \<and> (\<forall>x \<in> set xs. cost y < cost x) \<and>
      (\<forall>x \<in> set []. cost y \<le> cost x)" by simp
  then show ?thesis unfolding earliest_cheapest_def by blast
qed

lemma earliest_cheapest_snoc_not_better:
  assumes "earliest_cheapest cost xs b" "\<not> cost y < cost b"
  shows "earliest_cheapest cost (xs @ [y]) b"
proof -
  from assms(1) obtain pre post where
    "xs = pre @ b # post" "\<forall>x \<in> set pre. cost b < cost x" "\<forall>x \<in> set post. cost b \<le> cost x"
    unfolding earliest_cheapest_def by blast
  with assms(2) have "xs @ [y] = pre @ b # (post @ [y]) \<and> (\<forall>x \<in> set pre. cost b < cost x) \<and>
      (\<forall>x \<in> set (post @ [y]). cost b \<le> cost x)" by auto
  then show ?thesis unfolding earliest_cheapest_def by blast
qed

lemma earliest_cheapest_head:
  assumes "earliest_cheapest cost (b0 # xs) b" "\<forall>x \<in> set xs. \<not> cost x < cost b0"
  shows "b = b0"
proof -
  from assms(1) obtain pre post where
    eq: "b0 # xs = pre @ b # post" and pre: "\<forall>x \<in> set pre. cost b < cost x"
    unfolding earliest_cheapest_def by blast
  show ?thesis
  proof (cases pre)
    case Nil
    with eq show ?thesis by simp
  next
    case (Cons y ys)
    with eq have "y = b0" "b \<in> set xs" by auto
    with pre Cons assms(2) show ?thesis by auto
  qed
qed

lemma best_earliest_cheapest_points:
  fixes mathRandom :: "'w \<Rightarrow> real \<times> 'w" and args :: "('s, 'w) SimulatedAnnealingArgs"
  assumes det: "deterministic_cost args cost" and copy: "copy_keeps_cost args cost"
  shows "\<forall>p \<in> set (run_points mathRandom args w k).
           bestCost (fst (fst p)) = cost (bestState (fst (fst p))) \<and>
           earliest_cheapest cost (entry_copy args w # map (neighborState_at args) (snd p))
             (bestState (fst (fst p)))"
proof -
  let ?I = "\<lambda>c h. bestCost (fst c) = cost (bestState (fst c)) \<and>
     earliest_cheapest cost (entry_copy args w # map (neighborState_at args) h) (bestState (fst c))"
  have step: "?I (inner_body mathRandom args c) (h @ [c])" if I: "?I c h" for c h
  proof (cases "neighborCost_at args c < bestCost (fst c)")
    case True
    with I have "cost (neighborState_at args c) < cost (bestState (fst c))"
      by (simp add: neighborCost_deterministic [OF det])
    with I have "earliest_cheapest cost
        ((entry_copy args w # map (neighborState_at args) h) @ [neighborState_at args c])
        (neighborState_at args c)"
      by (blast intro: earliest_cheapest_snoc_better)
    with True show ?thesis
      by (simp add: best_inner_body neighborCost_deterministic [OF det])
  next
    case False
    with I have "\<not> cost (neighborState_at args c) < cost (bestState (fst c))"
      by (simp add: neighborCost_deterministic [OF det])
    with I have "earliest_cheapest cost
        ((entry_copy args w # map (neighborState_at args) h) @ [neighborState_at args c])
        (bestState (fst c))"
      by (blast intro: earliest_cheapest_snoc_not_better)
    with False I show ?thesis
      by (simp add: best_inner_body)
  qed
  have cooled: "?I (cool (coolingFactorOf (options args)) c) h" if "?I c h"
    for c :: "'s run_state \<times> 'w" and h
    using that by simp
  have "earliest_cheapest cost [entry_copy args w] (entry_copy args w)"
    unfolding earliest_cheapest_def by (intro exI [of _ "[]"]) simp
  then have start: "?I (initial_config args w) []"
    using initial_config_costs [OF det, of w] entry_copy_cost [OF copy, of w]
    by (simp add: bestState_initial_config)
  show ?thesis
    by (rule run_points_invariant [of ?I, OF step cooled start])
qed

lemma run_result_point:
  fixes mathRandom :: "'w \<Rightarrow> real \<times> 'w" and args :: "('s, 'w) SimulatedAnnealingArgs"
  assumes "runSimulatedAnnealing mathRandom args w = Some (r, w')"
  shows "\<exists>k. final_config mathRandom args w = Some (fst (last (run_points mathRandom args w k))) \<and>
             r = bestState (fst (fst (last (run_points mathRandom args w k)))) \<and>
             w' = snd (fst (last (run_points mathRandom args w k)))"
proof -
  from assms obtain e where e: "final_config mathRandom args w = Some e"
    and r: "r = bestState (fst e)" "w' = snd e"
    by (auto simp: runSimulatedAnnealing_def)
  from final_config_last_point [OF e] obtain k where
    "e = fst (last (run_points mathRandom args w k))" by blast
  with e r show ?thesis by blast
qed

lemma last_run_point_in_set:
  "last (run_points mathRandom args w k) \<in> set (run_points mathRandom args w k)"
  by (simp add: run_points_last)

lemma best_min_points:
  fixes mathRandom :: "'w \<Rightarrow> real \<times> 'w" and args :: "('s, 'w) SimulatedAnnealingArgs"
  assumes det: "deterministic_cost args cost" and copy: "copy_keeps_cost args cost"
    and p: "p \<in> set (run_points mathRandom args w k)"
  shows "bestCost (fst (fst p)) = cost (bestState (fst (fst p))) \<and>
         cost (bestState (fst (fst p))) =
           Min (insert (cost (initialState args)) (cost ` neighborState_at args ` set (snd p)))"
proof -
  from best_earliest_cheapest_points [OF det copy, of mathRandom w k] p
  have best: "bestCost (fst (fst p)) = cost (bestState (fst (fst p)))"
    and "earliest_cheapest cost (entry_copy args w # map (neighborState_at args) (snd p))
           (bestState (fst (fst p)))"
    by blast+
  from earliest_cheapest_Min [OF this(2)]
  have "cost (bestState (fst (fst p))) =
      Min (insert (cost (entry_copy args w)) (cost ` neighborState_at args ` set (snd p)))"
    by (simp add: image_image)
  with best entry_copy_cost [OF copy, of w] show ?thesis by simp
qed

lemma best_earliest_point:
  fixes mathRandom :: "'w \<Rightarrow> real \<times> 'w" and args :: "('s, 'w) SimulatedAnnealingArgs"
  assumes det: "deterministic_cost args cost" and copy: "copy_keeps_cost args cost"
    and p: "p \<in> set (run_points mathRandom args w k)"
  shows "earliest_cheapest cost (entry_copy args w # map (neighborState_at args) (snd p))
           (bestState (fst (fst p))) \<and>
         ((\<forall>c \<in> set (snd p). \<not> cost (neighborState_at args c) < cost (initialState args)) \<longrightarrow>
            bestState (fst (fst p)) = entry_copy args w)"
proof -
  from best_earliest_cheapest_points [OF det copy, of mathRandom w k] p
  have e: "earliest_cheapest cost (entry_copy args w # map (neighborState_at args) (snd p))
           (bestState (fst (fst p)))" by blast
  have "bestState (fst (fst p)) = entry_copy args w"
    if "\<forall>c \<in> set (snd p). \<not> cost (neighborState_at args c) < cost (initialState args)"
    using earliest_cheapest_head [OF e] that entry_copy_cost [OF copy, of w] by simp
  with e show ?thesis by blast
qed

text \<open>The temperatures at the successive \<open>while\<close> tests, and when the loop is left.\<close>

lemma outer_tests_head:
  "\<exists>rest. outer_tests mathRandom args factor minimum swaps k cfg = cfg # rest"
  by (cases k) simp_all

lemma outer_tests_temperatures:
  fixes mathRandom :: "'w \<Rightarrow> real \<times> 'w" and args :: "('s, 'w) SimulatedAnnealingArgs"
  assumes f: "0 < factor" "factor < 1" "is_double factor"
    and t: "is_double (currentTemperature (fst cfg))" "0 \<le> currentTemperature (fst cfg)"
  shows "successively (\<lambda>a b. pow2 (- 1022) < a \<longrightarrow> b < a)
           (map (\<lambda>cfg. currentTemperature (fst cfg))
              (outer_tests mathRandom args factor minimum swaps k cfg)) \<and>
         sorted_wrt (\<ge>) (map (\<lambda>cfg. currentTemperature (fst cfg))
           (outer_tests mathRandom args factor minimum swaps k cfg)) \<and>
         (\<forall>c \<in> set (outer_tests mathRandom args factor minimum swaps k cfg).
            currentTemperature (fst c) \<le> currentTemperature (fst cfg))"
  using t
proof (induction k arbitrary: cfg)
  case 0
  then show ?case by simp
next
  case (Suc k)
  let ?T = "\<lambda>cfg :: 's run_state \<times> 'w. currentTemperature (fst cfg)"
  let ?next = "outer_body mathRandom args factor swaps cfg"
  let ?rest = "outer_tests mathRandom args factor minimum swaps k ?next"
  have next_T: "?T ?next = binary64 (?T cfg * factor)" by simp
  from cooled_temperature_step [OF f Suc.prems] next_T
  have le: "?T ?next \<le> ?T cfg"
    and strict: "pow2 (- 1022) < ?T cfg \<longrightarrow> ?T ?next < ?T cfg"
    and dbl: "is_double (?T ?next)" and nonneg: "0 \<le> ?T ?next"
    by simp_all
  from Suc.IH [OF dbl nonneg]
  have succ: "successively (\<lambda>a b. pow2 (- 1022) < a \<longrightarrow> b < a) (map ?T ?rest)"
    and sorted: "sorted_wrt (\<ge>) (map ?T ?rest)"
    and bound: "\<forall>c \<in> set ?rest. ?T c \<le> ?T ?next"
    by blast+
  from outer_tests_head obtain rest where rest: "?rest = ?next # rest" by blast
  show ?case
  proof (cases "?T cfg > minimum")
    case True
    then have unfold: "outer_tests mathRandom args factor minimum swaps (Suc k) cfg = cfg # ?rest"
      by simp
    have 1: "successively (\<lambda>a b. pow2 (- 1022) < a \<longrightarrow> b < a) (map ?T (cfg # ?rest))"
      using succ strict by (simp add: successively_Cons rest del: temperature_outer_body)
    have below: "\<forall>c \<in> set ?rest. ?T c \<le> ?T cfg"
      using bound le by fastforce
    then have 2: "sorted_wrt (\<ge>) (map ?T (cfg # ?rest))"
      using sorted by simp
    from 1 2 below show ?thesis by (simp only: unfold) simp
  next
    case False
    then show ?thesis by simp
  qed
qed



section \<open>States that are references: what a run keeps\<close>

lemma keeps_refl: "keeps alive content w w"
  by (simp add: keeps_def)

lemma keeps_trans:
  "keeps alive content w w' \<Longrightarrow> keeps alive content w' w'' \<Longrightarrow> keeps alive content w w''"
  by (simp add: keeps_def)

lemma keeps_alive: "keeps alive content w w' \<Longrightarrow> alive s w \<Longrightarrow> alive s w'"
  by (simp add: keeps_def)

lemma keeps_content: "keeps alive content w w' \<Longrightarrow> alive s w \<Longrightarrow> content s w' = content s w"
  by (simp add: keeps_def)

lemma snd_inner_body:
  "snd (inner_body mathRandom args cfg) =
     (let w1 = snd (generateNewState args (currentState (fst cfg)) (snd cfg));
          w2 = snd (getCost args (neighborState_at args cfg) w1)
      in if changeInCost_at args cfg < 0 then w2 else snd (mathRandom w2))"
  by (simp add: inner_body_def acceptance_def changeInCost_at_def neighborCost_at_def
      neighborState_at_def Let_def split: prod.splits)

lemma inner_body_keeps:
  fixes mathRandom :: "'w \<Rightarrow> real \<times> 'w" and args :: "('s, 'w) SimulatedAnnealingArgs"
  assumes free: "mutation_free mathRandom args alive content"
    and cur: "alive (currentState (fst cfg)) (snd cfg)"
  shows "keeps alive content (snd cfg) (snd (inner_body mathRandom args cfg)) \<and>
         alive (neighborState_at args cfg) (snd (inner_body mathRandom args cfg))"
proof -
  let ?w = "snd cfg"
  let ?w1 = "snd (generateNewState args (currentState (fst cfg)) ?w)"
  let ?n = "neighborState_at args cfg"
  let ?w2 = "snd (getCost args ?n ?w1)"
  let ?w3 = "snd (inner_body mathRandom args cfg)"
  from free cur have k1: "keeps alive content ?w ?w1" and n1: "alive ?n ?w1"
    by (simp_all add: mutation_free_def neighborState_at_def)
  from free n1 have k2: "keeps alive content ?w1 ?w2"
    by (simp add: mutation_free_def)
  from free have "keeps alive content ?w2 (snd (mathRandom ?w2))"
    by (simp add: mutation_free_def)
  then have k3: "keeps alive content ?w2 ?w3"
    by (simp add: snd_inner_body Let_def keeps_refl)
  from keeps_trans [OF keeps_trans [OF k1 k2] k3]
    keeps_alive [OF k3 keeps_alive [OF k2 n1]]
  show ?thesis by blast
qed

lemma initial_config_alive:
  fixes args :: "('s, 'w) SimulatedAnnealingArgs"
  assumes free: "mutation_free mathRandom args alive content"
    and init: "alive (initialState args) w"
  shows "alive (currentState (fst (initial_config args w))) (snd (initial_config args w)) \<and>
         alive (bestState (fst (initial_config args w))) (snd (initial_config args w))"
proof -
  let ?i = "initialState args"
  let ?w1 = "snd (copyState args ?i w)"
  let ?w2 = "snd (getCost args ?i ?w1)"
  let ?w3 = "snd (copyState args ?i ?w2)"
  let ?w4 = "snd (getCost args ?i ?w3)"
  have cfg: "currentState (fst (initial_config args w)) = fst (copyState args ?i w)"
    "bestState (fst (initial_config args w)) = fst (copyState args ?i ?w2)"
    "snd (initial_config args w) = ?w4"
    by (simp_all add: initial_config_def Let_def split: prod.splits)
  from free init have k1: "keeps alive content w ?w1" and c1: "alive (fst (copyState args ?i w)) ?w1"
    by (simp_all add: mutation_free_def)
  from keeps_alive [OF k1 init] have i1: "alive ?i ?w1" .
  with free have k2: "keeps alive content ?w1 ?w2" by (simp add: mutation_free_def)
  from keeps_alive [OF k2 i1] have i2: "alive ?i ?w2" .
  with free have k3: "keeps alive content ?w2 ?w3" and c3: "alive (fst (copyState args ?i ?w2)) ?w3"
    by (simp_all add: mutation_free_def)
  from keeps_alive [OF k3 i2] have i3: "alive ?i ?w3" .
  with free have k4: "keeps alive content ?w3 ?w4" by (simp add: mutation_free_def)
  from keeps_alive [OF k4 keeps_alive [OF k3 keeps_alive [OF k2 c1]]] keeps_alive [OF k4 c3]
  show ?thesis by (simp add: cfg)
qed

lemma recorded_best_kept_points:
  fixes mathRandom :: "'w \<Rightarrow> real \<times> 'w" and args :: "('s, 'w) SimulatedAnnealingArgs"
  assumes free: "mutation_free mathRandom args alive content"
    and init: "alive (initialState args) w"
  shows "\<forall>p \<in> set (run_points mathRandom args w k).
           alive (bestState (fst (fst p))) (snd (fst p)) \<and>
           (\<forall>q \<in> set (snd p).
              alive (bestState (fst q)) (snd (fst p)) \<and>
              content (bestState (fst q)) (snd (fst p)) = content (bestState (fst q)) (snd q))"
proof -
  let ?I = "\<lambda>c h. alive (currentState (fst c)) (snd c) \<and> alive (bestState (fst c)) (snd c) \<and>
     (\<forall>q \<in> set h. alive (bestState (fst q)) (snd c) \<and>
        content (bestState (fst q)) (snd c) = content (bestState (fst q)) (snd q))"
  have step: "?I (inner_body mathRandom args c) (h @ [c])" if I: "?I c h"
    for c and h :: "('s run_state \<times> 'w) list"
  proof -
    let ?c' = "inner_body mathRandom args c"
    from I have cur: "alive (currentState (fst c)) (snd c)"
      and best: "alive (bestState (fst c)) (snd c)"
      and old: "\<forall>q \<in> set h. alive (bestState (fst q)) (snd c) \<and>
        content (bestState (fst q)) (snd c) = content (bestState (fst q)) (snd q)"
      by blast+
    from inner_body_keeps [OF free cur]
    have k: "keeps alive content (snd c) (snd ?c')"
      and n: "alive (neighborState_at args c) (snd ?c')" by blast+
    note cur' = keeps_alive [OF k cur] and best' = keeps_alive [OF k best]
    from cur' n have 1: "alive (currentState (fst ?c')) (snd ?c')"
      by (simp add: current_inner_body)
    from best' n have 2: "alive (bestState (fst ?c')) (snd ?c')"
      by (simp add: best_inner_body)
    have 3: "content (bestState (fst c)) (snd ?c') = content (bestState (fst c)) (snd c)"
      by (rule keeps_content [OF k best])
    have 4: "alive (bestState (fst q)) (snd ?c') \<and>
        content (bestState (fst q)) (snd ?c') = content (bestState (fst q)) (snd q)"
      if q: "q \<in> set h" for q
    proof -
      from old q have a: "alive (bestState (fst q)) (snd c)"
        and e: "content (bestState (fst q)) (snd c) = content (bestState (fst q)) (snd q)"
        by blast+
      from keeps_alive [OF k a] keeps_content [OF k a] e show ?thesis by simp
    qed
    from 1 2 3 4 best' show ?thesis by simp
  qed
  have cooled: "?I (cool (coolingFactorOf (options args)) c) h" if "?I c h"
    for c and h :: "('s run_state \<times> 'w) list"
    using that by simp
  have start: "?I (initial_config args w) []"
    using initial_config_alive [OF free init] by simp
  have "\<forall>p \<in> set (run_points mathRandom args w k). ?I (fst p) (snd p)"
    by (rule run_points_invariant [of ?I, OF step cooled start])
  then show ?thesis by blast
qed

section \<open>The neighbor generation on a single group\<close>

lemma generateRandomNumber_single:
  assumes "unit_interval mathRandom"
  shows "fst (generateRandomNumber mathRandom m m w) = m"
proof -
  from assms have "0 \<le> fst (mathRandom w)" "fst (mathRandom w) < 1"
    by (simp_all add: unit_interval_def)
  then have "\<lfloor>fst (mathRandom w)\<rfloor> = 0" by linarith
  then show ?thesis
    by (cases "mathRandom w") (simp add: generateRandomNumber_def)
qed

lemma unique_loop_single_never_returns:
  fixes mathRandom :: "'w \<Rightarrow> real \<times> 'w"
  assumes unit: "unit_interval mathRandom"
  shows "unique_loop mathRandom m m m m w = None"
proof (rule ccontr)
  assume "unique_loop mathRandom m m m m w \<noteq> None"
  then obtain y where y: "unique_loop mathRandom m m m m w = Some y" by blast
  have "\<not> (unit_interval mathRandom \<and> mn = mx \<and> one = mn \<and> two = mn)"
    if "unique_loop mathRandom mn mx one two w = Some y" for mn mx one two w y
    using that
  proof (rule unique_loop.raw_induct [where P = "\<lambda>mathRandom mn mx one two w y.
      \<not> (unit_interval mathRandom \<and> mn = mx \<and> one = mn \<and> two = mn)", rotated])
    fix loop and mathRandom :: "'w \<Rightarrow> real \<times> 'w" and mn mx one two :: int and w :: 'w
      and y :: "(int \<times> int) \<times> 'w"
    assume IH: "\<And>mathRandom mn mx one two w y. loop mathRandom mn mx one two w = Some y \<Longrightarrow>
        \<not> (unit_interval mathRandom \<and> mn = mx \<and> one = mn \<and> two = mn)"
      and eq: "(if one = two
          then loop mathRandom mn mx one (fst (generateRandomNumber mathRandom mn mx w))
                 (snd (generateRandomNumber mathRandom mn mx w))
          else Some ((one, two), w)) = Some y"
    show "\<not> (unit_interval mathRandom \<and> mn = mx \<and> one = mn \<and> two = mn)"
    proof
      assume h: "unit_interval mathRandom \<and> mn = mx \<and> one = mn \<and> two = mn"
      with eq have "loop mathRandom mn mn mn (fst (generateRandomNumber mathRandom mn mn w))
                 (snd (generateRandomNumber mathRandom mn mn w)) = Some y" by simp
      with h have "loop mathRandom mn mn mn mn (snd (generateRandomNumber mathRandom mn mn w)) = Some y"
        by (simp add: generateRandomNumber_single)
      from IH [OF this] h show False by simp
    qed
  qed
  from this [OF y] unit show False by simp
qed

lemma generateUniqueRandomNumbers_single:
  assumes "unit_interval mathRandom"
  shows "generateUniqueRandomNumbers mathRandom m m w = None"
proof -
  obtain one w' where g: "generateRandomNumber mathRandom m m w = (one, w')"
    by (cases "generateRandomNumber mathRandom m m w")
  with generateRandomNumber_single [OF assms, of m w] have "one = m" by simp
  with g unique_loop_single_never_returns [OF assms, of m w'] show ?thesis
    by (simp add: generateUniqueRandomNumbers_def)
qed

lemma fixture_empty_returns: "fixture_generateNewState mathRandom [] w = Some (Inr [], w)"
  by (simp add: fixture_generateNewState_def)

section \<open>The small caller, run\<close>

lemma ex_options_values [simp]:
  "coolingFactorOf (options ex_args) = 1 / 2"
  "initialTemperatureOf (options ex_args) = 1"
  "minimumTemperatureOf (options ex_args) = 1 / 4"
  "swapsPerTemperatureOf (options ex_args) = 2"
  by (simp_all add: ex_args_def ex_options_def coolingFactorOf_def initialTemperatureOf_def
      minimumTemperatureOf_def swapsPerTemperatureOf_def optionsOrEmpty_def)

lemma ex_deterministic_cost: "deterministic_cost ex_args ex_cost"
  by (simp add: deterministic_cost_def ex_args_def)

lemma ex_initial_config:
  "initial_config ex_args [] =
     (\<lparr>currentState = 2, currentCost = 4, currentTemperature = 1, bestState = 2, bestCost = 4\<rparr>, [])"
  by (simp add: initial_config_def ex_args_def initialTemperatureOf_def optionsOrEmpty_def
      ex_options_def ex_cost_def)

lemma ex_inner_body:
  "t \<noteq> 0 \<Longrightarrow>
   inner_body ex_random ex_args
     (\<lparr>currentState = s, currentCost = c, currentTemperature = t, bestState = b, bestCost = bc\<rparr>, []) =
     (\<lparr>currentState = s - 1, currentCost = ex_cost (s - 1), currentTemperature = t,
       bestState = (if ex_cost (s - 1) < bc then s - 1 else b),
       bestCost = (if ex_cost (s - 1) < bc then ex_cost (s - 1) else bc)\<rparr>, [])"
  by (simp add: inner_body_def ex_args_def ex_random_def acceptance_def metropolis_def
      accept_update_def best_update_def)

lemma ex_outer_body_1:
  "outer_body ex_random ex_args (1 / 2) 2 (initial_config ex_args []) =
     (\<lparr>currentState = 0, currentCost = 0, currentTemperature = 1 / 2, bestState = 0, bestCost = 0\<rparr>, [])"
  by (simp add: outer_body_def inner_loop_funpow numeral_2_eq_2 ex_initial_config ex_inner_body
      cool_def ex_cost_def)

lemma ex_outer_body_2:
  "outer_body ex_random ex_args (1 / 2) 2
     (\<lparr>currentState = 0, currentCost = 0, currentTemperature = 1 / 2, bestState = 0, bestCost = 0\<rparr>, []) =
     (\<lparr>currentState = - 2, currentCost = 4, currentTemperature = 1 / 4, bestState = 0, bestCost = 0\<rparr>, [])"
  by (simp add: outer_body_def inner_loop_funpow numeral_2_eq_2 ex_inner_body cool_def ex_cost_def)

lemma ex_final_config:
  "final_config ex_random ex_args [] =
     Some (\<lparr>currentState = - 2, currentCost = 4, currentTemperature = 1 / 4, bestState = 0, bestCost = 0\<rparr>, [])"
proof -
  have "outer_iter ex_random ex_args (1 / 2) (1 / 4) 2 (Suc (Suc 0)) (initial_config ex_args []) =
     (\<lparr>currentState = - 2, currentCost = 4, currentTemperature = 1 / 4, bestState = 0, bestCost = 0\<rparr>, [])"
    by (simp add: ex_outer_body_1 ex_outer_body_2)
  then show ?thesis
    using outer_loop_outer_iter [where mathRandom = ex_random and args = ex_args and factor = "1 / 2"
        and minimum = "1 / 4" and swaps = 2 and k = "Suc (Suc 0)" and cfg = "initial_config ex_args []"]
    by (simp add: final_config_def)
qed

lemma ex_run: "runSimulatedAnnealing ex_random ex_args [] = Some (0, [])"
  by (simp add: runSimulatedAnnealing_def ex_final_config)

lemma ex_run_temperatures: "run_temperatures ex_random ex_args [] 3 = [1, 1 / 2, 1 / 4]"
  by (simp add: run_temperatures_def eval_nat_numeral ex_outer_body_1 ex_outer_body_2)

lemma ex_first_neighbor:
  "neighborState_at ex_args (initial_config ex_args []) = 1"
  "neighborCost_at ex_args (initial_config ex_args []) = 1"
  "changeInCost_at ex_args (initial_config ex_args []) = - 3"
  by (simp_all add: ex_initial_config changeInCost_at_def neighborCost_at_def neighborState_at_def)
     (simp_all add: ex_args_def ex_cost_def)

lemma ex_first_step:
  "inner_body ex_random ex_args (initial_config ex_args []) =
     (\<lparr>currentState = 1, currentCost = 1, currentTemperature = 1, bestState = 1, bestCost = 1\<rparr>, [])"
  by (simp add: ex_initial_config ex_inner_body ex_cost_def)


lemma ex_copy_keeps_cost: "copy_keeps_cost ex_args ex_cost"
  by (simp add: copy_keeps_cost_def ex_args_def)

lemma ex_run_points:
  "run_points ex_random ex_args [] 2 =
     [(ex_cfg 2 4 1 2 4, []),
      (ex_cfg 1 1 1 1 1, [ex_cfg 2 4 1 2 4]),
      (ex_cfg 0 0 (1 / 2) 0 0, [ex_cfg 2 4 1 2 4, ex_cfg 1 1 1 1 1]),
      (ex_cfg (- 1) 1 (1 / 2) 0 0, [ex_cfg 2 4 1 2 4, ex_cfg 1 1 1 1 1, ex_cfg 0 0 (1 / 2) 0 0]),
      (ex_cfg (- 2) 4 (1 / 4) 0 0,
         [ex_cfg 2 4 1 2 4, ex_cfg 1 1 1 1 1, ex_cfg 0 0 (1 / 2) 0 0, ex_cfg (- 1) 1 (1 / 2) 0 0])]"
  by (simp add: run_points_def Let_def eval_nat_numeral inner_points.simps ex_outer_body_1
      ex_outer_body_2)
     (simp add: ex_initial_config ex_inner_body ex_cfg_def ex_cost_def)



text \<open>The caller whose neighbors tie.\<close>

lemma ex_tie_options_values [simp]:
  "coolingFactorOf (options ex_tie_args) = 1 / 2"
  "initialTemperatureOf (options ex_tie_args) = 1"
  "minimumTemperatureOf (options ex_tie_args) = 1 / 4"
  "swapsPerTemperatureOf (options ex_tie_args) = 2"
  by (simp_all add: ex_tie_args_def ex_options_def coolingFactorOf_def
      initialTemperatureOf_def minimumTemperatureOf_def swapsPerTemperatureOf_def optionsOrEmpty_def)

lemma ex_tie_assumptions:
  "deterministic_cost ex_tie_args (\<lambda>s. ex_cost (fst s))"
  "copy_keeps_cost ex_tie_args (\<lambda>s. ex_cost (fst s))"
  by (simp_all add: deterministic_cost_def copy_keeps_cost_def ex_tie_args_def)

lemma ex_tie_entry_copy: "entry_copy ex_tie_args [] = (2, 1)"
  by (simp add: entry_copy_def ex_tie_args_def)

lemma ex_tie_initial_config: "initial_config ex_tie_args [] = ex_cfg (2, 1) 4 1 (2, 1) 4"
  by (simp add: initial_config_def ex_tie_args_def initialTemperatureOf_def
      optionsOrEmpty_def ex_options_def ex_cost_def ex_cfg_def)

lemma ex_tie_inner_body:
  "t \<noteq> 0 \<Longrightarrow> ex_cost s = 4 \<Longrightarrow>
   inner_body ex_random ex_tie_args (ex_cfg (s, n) 4 t (2, 1) 4) = ex_cfg (- s, n + 10) 4 t (2, 1) 4"
  by (simp add: inner_body_def ex_tie_args_def ex_random_def acceptance_def
      metropolis_def accept_update_def best_update_def ex_cfg_def ex_cost_def)

lemma ex_tie_run_points:
  "run_points ex_random ex_tie_args [] 2 =
     [(ex_cfg (2, 1) 4 1 (2, 1) 4, []),
      (ex_cfg (- 2, 11) 4 1 (2, 1) 4, [ex_cfg (2, 1) 4 1 (2, 1) 4]),
      (ex_cfg (2, 21) 4 (1 / 2) (2, 1) 4, [ex_cfg (2, 1) 4 1 (2, 1) 4, ex_cfg (- 2, 11) 4 1 (2, 1) 4]),
      (ex_cfg (- 2, 31) 4 (1 / 2) (2, 1) 4,
         [ex_cfg (2, 1) 4 1 (2, 1) 4, ex_cfg (- 2, 11) 4 1 (2, 1) 4,
          ex_cfg (2, 21) 4 (1 / 2) (2, 1) 4]),
      (ex_cfg (2, 41) 4 (1 / 4) (2, 1) 4,
         [ex_cfg (2, 1) 4 1 (2, 1) 4, ex_cfg (- 2, 11) 4 1 (2, 1) 4,
          ex_cfg (2, 21) 4 (1 / 2) (2, 1) 4, ex_cfg (- 2, 31) 4 (1 / 2) (2, 1) 4])]"
proof -
  have body: "inner_body ex_random ex_tie_args (ex_cfg (2, n) 4 t (2, 1) 4) = ex_cfg (- 2, n + 10) 4 t (2, 1) 4"
    "inner_body ex_random ex_tie_args (ex_cfg (- 2, n) 4 t (2, 1) 4) = ex_cfg (2, n + 10) 4 t (2, 1) 4"
    if "t \<noteq> 0" for t n
    using that ex_tie_inner_body [of t 2 n] ex_tie_inner_body [of t "- 2" n]
    by (simp_all add: ex_cost_def)
  have cooled: "cool f (ex_cfg s c t b bc) = ex_cfg s c (binary64 (t * f)) b bc" for f c t bc
    and s b :: "int \<times> int"
    by (simp add: cool_def ex_cfg_def)
  have temperature: "currentTemperature (fst (ex_cfg s c t b bc)) = t" for c t bc
    and s b :: "int \<times> int"
    by (simp add: ex_cfg_def)
  show ?thesis
    by (simp add: run_points_def Let_def eval_nat_numeral inner_points.simps outer_body_def
        inner_loop_funpow ex_tie_initial_config body cooled temperature)
qed

lemma ex_tie_run: "runSimulatedAnnealing ex_random ex_tie_args [] = Some ((2, 1), [])"
proof -
  have "fst (last (run_points ex_random ex_tie_args [] 2)) = ex_cfg (2, 41) 4 (1 / 4) (2, 1) 4"
    by (simp add: ex_tie_run_points)
  then have "outer_iter ex_random ex_tie_args (1 / 2) (1 / 4) 2 2 (initial_config ex_tie_args []) =
      ex_cfg (2, 41) 4 (1 / 4) (2, 1) 4"
    using run_points_last [of ex_random ex_tie_args "[]" 2] by simp
  then show ?thesis
    using outer_loop_outer_iter [where mathRandom = ex_random and args = ex_tie_args
        and factor = "1 / 2" and minimum = "1 / 4" and swaps = 2 and k = 2
        and cfg = "initial_config ex_tie_args []"]
    by (simp add: runSimulatedAnnealing_def final_config_def ex_cfg_def)
qed





lemma drift_options_values [simp]:
  "coolingFactorOf (options drift_args) = 3 / 4"
  "initialTemperatureOf (options drift_args) = 1"
  "minimumTemperatureOf (options drift_args) = 2084647712458321 * pow2 (- 65)"
  "swapsPerTemperatureOf (options drift_args) = 2"
  by (simp_all add: drift_args_def drift_options_def coolingFactorOf_def initialTemperatureOf_def
      minimumTemperatureOf_def swapsPerTemperatureOf_def optionsOrEmpty_def)






text \<open>
  Cooling from \<open>2 * pow2 (- 1074)\<close> by \<open>0.75\<close>: the product \<open>1.5 * pow2 (- 1074)\<close> lies half
  way between the doubles \<open>pow2 (- 1074)\<close> and \<open>2 * pow2 (- 1074)\<close> and rounds to the even
  one, the temperature it came from.
\<close>

lemma stuck_options_values [simp]:
  "coolingFactorOf (options stuck_args) = 3 / 4"
  "initialTemperatureOf (options stuck_args) = 2 * pow2 (- 1074)"
  "minimumTemperatureOf (options stuck_args) = pow2 (- 1074)"
  "swapsPerTemperatureOf (options stuck_args) = 2"
  by (simp_all add: stuck_args_def stuck_options_def coolingFactorOf_def initialTemperatureOf_def
      minimumTemperatureOf_def swapsPerTemperatureOf_def optionsOrEmpty_def)

lemma stuck_product: "binary64 (2 * pow2 (- 1074) * (3 / 4)) = 2 * pow2 (- 1074)"
proof -
  let ?x = "2 * pow2 (- 1074) * (3 / 4) :: real"
  have x: "?x = 3 / 2 * pow2 (- 1074)" by simp
  have "?x < 2 * pow2 (- 1074)" by simp
  also have "\<dots> = pow2 (- 1073)" using pow2_Suc [of "- 1074"] by simp
  also have "\<dots> \<le> pow2 (- 1022)" by (simp only: pow2_le_iff)
  finally have "\<bar>?x\<bar> < pow2 (- 1022)" by simp
  then have q: "quantum ?x = - 1074" by (simp only: quantum_def if_True)
  have "?x / pow2 (- 1074) = 3 / 2" by simp
  then have "round_even (?x / pow2 (quantum ?x)) = 2"
    by (simp only: q round_even_three_halves)
  then show ?thesis by (simp only: binary64_def q)
qed

lemma stuck_product': "binary64 (3 * pow2 (- 1074) / 2) = 2 * pow2 (- 1074)"
  using stuck_product by simp

lemma stuck_initial_double: "is_double (2 * pow2 (- 1074))"
  using binary64_exact [of "- 1074" 2] by (simp add: is_double_def)



section \<open>The callers with references, run\<close>

lemma hp_options_values [simp]:
  "coolingFactorOf (Some hp_options) = 1 / 2"
  "initialTemperatureOf (Some hp_options) = 1"
  "minimumTemperatureOf (Some hp_options) = 1 / 2"
  "swapsPerTemperatureOf (Some hp_options) = 2"
  by (simp_all add: hp_options_def coolingFactorOf_def initialTemperatureOf_def
      minimumTemperatureOf_def swapsPerTemperatureOf_def optionsOrEmpty_def)

lemma hp_cfg_simps [simp]:
  "currentTemperature (fst (hp_cfg s c t b bc w)) = t"
  "bestState (fst (hp_cfg s c t b bc w)) = b"
  "bestCost (fst (hp_cfg s c t b bc w)) = bc"
  "currentState (fst (hp_cfg s c t b bc w)) = s"
  "snd (hp_cfg s c t b bc w) = w"
  "cool f (hp_cfg s c t b bc w) = hp_cfg s c (binary64 (t * f)) b bc w"
  by (simp_all add: hp_cfg_def cool_def)

lemma funpow_two_swaps: "(f ^^ 2) x = f (f x)"
  by (simp add: numeral_2_eq_2)

lemma hp_inplace_initial_config:
  "initial_config hp_inplace_args ([5, 0], [3, 7]) = hp_cfg 2 5 1 3 5 ([5, 0, 5, 5], [3, 7])"
  by (simp add: initial_config_def hp_inplace_args_def hp_cfg_def)

lemma hp_inplace_step_1:
  "inner_body hp_random hp_inplace_args (hp_cfg 2 5 1 3 5 ([5, 0, 5, 5], [3, 7])) =
     hp_cfg 2 3 1 2 3 ([5, 0, 3, 5], [7])"
  by (simp add: inner_body_def hp_inplace_args_def hp_cfg_def hp_random_def acceptance_def
      metropolis_def accept_update_def best_update_def)

lemma hp_inplace_step_2:
  "inner_body hp_random hp_inplace_args (hp_cfg 2 3 1 2 3 ([5, 0, 3, 5], [7])) =
     hp_cfg 2 7 1 2 3 ([5, 0, 7, 5], [])"
  by (simp add: inner_body_def hp_inplace_args_def hp_cfg_def hp_random_def acceptance_def
      metropolis_def accept_update_def best_update_def)

lemma hp_inplace_run:
  "runSimulatedAnnealing hp_random hp_inplace_args ([5, 0], [3, 7]) = Some (2, ([5, 0, 7, 5], []))"
proof -
  have opts: "options hp_inplace_args = Some hp_options" by (simp add: hp_inplace_args_def)
  have "outer_iter hp_random hp_inplace_args (1 / 2) (1 / 2) 2 (Suc 0)
      (initial_config hp_inplace_args ([5, 0], [3, 7])) = hp_cfg 2 7 (1 / 2) 2 3 ([5, 0, 7, 5], [])"
    by (simp add: hp_inplace_initial_config outer_body_def inner_loop_funpow funpow_two_swaps
        hp_inplace_step_1 hp_inplace_step_2)
  then show ?thesis
    using outer_loop_outer_iter [where mathRandom = hp_random and args = hp_inplace_args
        and factor = "1 / 2" and minimum = "1 / 2" and swaps = 2 and k = "Suc 0"
        and cfg = "initial_config hp_inplace_args ([5, 0], [3, 7])"]
    by (simp add: runSimulatedAnnealing_def final_config_def opts)
qed

lemma hp_fresh_mutation_free: "mutation_free hp_random hp_fresh_args hp_alive hp_content"
  by (auto simp: mutation_free_def keeps_def hp_random_def hp_fresh_args_def hp_inplace_args_def
      hp_alive_def hp_content_def nth_append split: list.splits)

lemma hp_fresh_initial_config:
  "initial_config hp_fresh_args ([5, 0], [3, 7]) = hp_cfg 2 5 1 3 5 ([5, 0, 5, 5], [3, 7])"
  by (simp add: initial_config_def hp_fresh_args_def hp_inplace_args_def hp_cfg_def)

lemma hp_fresh_step_1:
  "inner_body hp_random hp_fresh_args (hp_cfg 2 5 1 3 5 ([5, 0, 5, 5], [3, 7])) =
     hp_cfg 4 3 1 4 3 ([5, 0, 5, 5, 3], [7])"
  by (simp add: inner_body_def hp_fresh_args_def hp_inplace_args_def hp_cfg_def hp_random_def
      acceptance_def metropolis_def accept_update_def best_update_def)

lemma hp_fresh_step_2:
  "inner_body hp_random hp_fresh_args (hp_cfg 4 3 1 4 3 ([5, 0, 5, 5, 3], [7])) =
     hp_cfg 5 7 1 4 3 ([5, 0, 5, 5, 3, 7], [])"
  by (simp add: inner_body_def hp_fresh_args_def hp_inplace_args_def hp_cfg_def hp_random_def
      acceptance_def metropolis_def accept_update_def best_update_def)

lemma hp_fresh_run:
  "runSimulatedAnnealing hp_random hp_fresh_args ([5, 0], [3, 7]) =
     Some (4, ([5, 0, 5, 5, 3, 7], []))"
proof -
  have opts: "options hp_fresh_args = Some hp_options"
    by (simp add: hp_fresh_args_def hp_inplace_args_def)
  have "outer_iter hp_random hp_fresh_args (1 / 2) (1 / 2) 2 (Suc 0)
      (initial_config hp_fresh_args ([5, 0], [3, 7])) =
      hp_cfg 5 7 (1 / 2) 4 3 ([5, 0, 5, 5, 3, 7], [])"
    by (simp add: hp_fresh_initial_config outer_body_def inner_loop_funpow funpow_two_swaps
        hp_fresh_step_1 hp_fresh_step_2)
  then show ?thesis
    using outer_loop_outer_iter [where mathRandom = hp_random and args = hp_fresh_args
        and factor = "1 / 2" and minimum = "1 / 2" and swaps = 2 and k = "Suc 0"
        and cfg = "initial_config hp_fresh_args ([5, 0], [3, 7])"]
    by (simp add: runSimulatedAnnealing_def final_config_def opts)
qed

lemma ex_random_unit_interval: "unit_interval (\<lambda>w :: unit. (0, w))"
  by (simp add: unit_interval_def)

section \<open>The claims\<close>

text \<open>
  C7. In every iteration of the inner loop the generated neighbor becomes the current
  state (\<open>currentState\<close> and \<open>currentCost\<close> both updated) if and only if
  \<open>delta < 0\<close> or \<open>exp (- delta / currentTemperature) > u\<close>, where \<open>delta\<close> is the
  neighbor's cost minus \<open>currentCost\<close> and \<open>u\<close> is the draw of that iteration; otherwise
  both keep their values. In particular every strictly improving move is accepted. (The
  quotient is read as a real number, so the temperature is not zero there.)
\<close>

theorem acceptance_rule:
  fixes mathRandom :: "'w \<Rightarrow> real \<times> 'w" and args :: "('s, 'w) SimulatedAnnealingArgs"
  shows "(currentTemperature (fst cfg) \<noteq> 0 \<longrightarrow>
          (if changeInCost_at args cfg < 0 \<or>
              exp (- changeInCost_at args cfg / currentTemperature (fst cfg)) >
                draw_at mathRandom args cfg
           then currentState (fst (inner_body mathRandom args cfg)) = neighborState_at args cfg \<and>
                currentCost (fst (inner_body mathRandom args cfg)) = neighborCost_at args cfg
           else currentState (fst (inner_body mathRandom args cfg)) = currentState (fst cfg) \<and>
                currentCost (fst (inner_body mathRandom args cfg)) = currentCost (fst cfg))) \<and>
         (changeInCost_at args cfg < 0 \<longrightarrow>
          currentState (fst (inner_body mathRandom args cfg)) = neighborState_at args cfg \<and>
          currentCost (fst (inner_body mathRandom args cfg)) = neighborCost_at args cfg)"
  by (simp add: current_inner_body accepted_at_def metropolis_def)

theorem acceptance_rule_witness:
  "currentTemperature (fst (initial_config ex_args [])) \<noteq> 0 \<and>
   changeInCost_at ex_args (initial_config ex_args []) < 0 \<and>
   currentState (fst (inner_body ex_random ex_args (initial_config ex_args []))) =
     neighborState_at ex_args (initial_config ex_args []) \<and>
   currentCost (fst (inner_body ex_random ex_args (initial_config ex_args []))) =
     neighborCost_at ex_args (initial_config ex_args [])"
proof -
  have T: "currentTemperature (fst (initial_config ex_args [])) \<noteq> 0"
    by (simp add: ex_initial_config)
  have improving: "changeInCost_at ex_args (initial_config ex_args []) < 0"
    by (simp add: ex_first_neighbor)
  from acceptance_rule [of "initial_config ex_args []" ex_args ex_random] T improving
  show ?thesis by simp
qed

text \<open>
  C8. Across any run (any caller, any options, cut after any number \<open>k\<close> of passes of
  the \<open>while\<close> loop), the values of \<open>bestCost\<close> at the successive iterations of the
  inner loop form a non-increasing sequence.
\<close>

theorem bestCost_never_increases:
  "sorted_wrt (\<ge>) (map (\<lambda>p. bestCost (fst (fst p))) (run_points mathRandom args w k))"
  by (rule bestCost_points_sorted)

text \<open>
  C9, as the code has it. When \<open>0 < coolingFactor < 1\<close> and \<open>initialTemperature > 0\<close>
  (two doubles, as all numbers of the program are), the values of \<open>currentTemperature\<close>
  at the successive \<open>while\<close> tests of a run never increase, and every value above
  \<open>pow2 (- 1022)\<close>, the least normal double, is followed by a strictly smaller one.
\<close>

theorem temperature_decreasing_above_subnormal:
  fixes mathRandom :: "'w \<Rightarrow> real \<times> 'w" and args :: "('s, 'w) SimulatedAnnealingArgs"
  assumes "0 < coolingFactorOf (options args)" "coolingFactorOf (options args) < 1"
    and "is_double (coolingFactorOf (options args))"
    and "0 < initialTemperatureOf (options args)"
    and "is_double (initialTemperatureOf (options args))"
  shows "sorted_wrt (\<ge>) (run_temperatures mathRandom args w k) \<and>
         successively (\<lambda>a b. pow2 (- 1022) < a \<longrightarrow> b < a) (run_temperatures mathRandom args w k)"
proof -
  have "is_double (currentTemperature (fst (initial_config args w)))"
    "0 \<le> currentTemperature (fst (initial_config args w))"
    using assms(4,5) by simp_all
  from outer_tests_temperatures [OF assms(1-3) this] show ?thesis
    by (simp add: run_temperatures_def)
qed

theorem temperature_decreasing_above_subnormal_witness:
  "0 < coolingFactorOf (options ex_args) \<and> coolingFactorOf (options ex_args) < 1 \<and>
   is_double (coolingFactorOf (options ex_args)) \<and>
   0 < initialTemperatureOf (options ex_args) \<and>
   is_double (initialTemperatureOf (options ex_args)) \<and>
   run_temperatures ex_random ex_args [] 3 = [1, 1 / 2, 1 / 4] \<and>
   sorted_wrt (\<ge>) (run_temperatures ex_random ex_args [] 3) \<and>
   successively (\<lambda>a b. pow2 (- 1022) < a \<longrightarrow> b < a) (run_temperatures ex_random ex_args [] 3)"
proof -
  have hyps: "0 < coolingFactorOf (options ex_args)" "coolingFactorOf (options ex_args) < 1"
    "is_double (coolingFactorOf (options ex_args))" "0 < initialTemperatureOf (options ex_args)"
    "is_double (initialTemperatureOf (options ex_args))"
    by simp_all
  from temperature_decreasing_above_subnormal [OF hyps, of ex_random "[]" 3] hyps ex_run_temperatures
  show ?thesis by blast
qed

text \<open>
  C9, as stated, fails among the subnormal doubles: with \<open>coolingFactor = 0.75\<close> and
  \<open>initialTemperature = 2 * pow2 (- 1074)\<close> the product of line 114 rounds back to
  \<open>2 * pow2 (- 1074)\<close>, so the temperature at the second \<open>while\<close> test is the one at
  the first.
\<close>

theorem temperature_stuck_in_subnormal:
  "0 < coolingFactorOf (options stuck_args) \<and> coolingFactorOf (options stuck_args) < 1 \<and>
   is_double (coolingFactorOf (options stuck_args)) \<and>
   0 < initialTemperatureOf (options stuck_args) \<and>
   is_double (initialTemperatureOf (options stuck_args)) \<and>
   run_temperatures ex_random stuck_args [] 1 = [2 * pow2 (- 1074), 2 * pow2 (- 1074)] \<and>
   \<not> sorted_wrt (>) (run_temperatures ex_random stuck_args [] 1)"
proof -
  have "run_temperatures ex_random stuck_args [] 1 = [2 * pow2 (- 1074), 2 * pow2 (- 1074)]"
    by (simp add: run_temperatures_def stuck_product')
  then show ?thesis by (simp add: stuck_initial_double)
qed




text \<open>
  C2, as the code has it. When \<open>getCost\<close> is deterministic, \<open>bestCost \<le> currentCost\<close>
  holds at every boundary between iterations of the inner loop, and at the end of the
  run. It can fail only inside an iteration, between the update of lines 104-105 and
  the update of lines 109-110 (when an accepted neighbor is cheaper than the best so
  far). And \<open>bestCost\<close> never increases over the run.
\<close>

theorem best_le_current_at_boundaries:
  fixes mathRandom :: "'w \<Rightarrow> real \<times> 'w" and args :: "('s, 'w) SimulatedAnnealingArgs"
  assumes "deterministic_cost args cost"
  shows "(\<forall>p \<in> set (run_points mathRandom args w k).
            bestCost (fst (fst p)) \<le> currentCost (fst (fst p))) \<and>
         (\<exists>rs :: 's run_state. \<exists>neighborState neighborCost.
            bestCost rs \<le> currentCost rs \<and>
            currentCost (accept_update True neighborState neighborCost rs) <
              bestCost (accept_update True neighborState neighborCost rs)) \<and>
         sorted_wrt (\<ge>) (map (\<lambda>p. bestCost (fst (fst p))) (run_points mathRandom args w k))"
proof (intro conjI)
  show "\<forall>p \<in> set (run_points mathRandom args w k).
           bestCost (fst (fst p)) \<le> currentCost (fst (fst p))"
    by (rule best_le_current_points [OF assms])
  have "bestCost \<lparr>currentState = s, currentCost = 1, currentTemperature = 1,
                  bestState = s, bestCost = 1\<rparr> \<le>
        currentCost \<lparr>currentState = s, currentCost = 1, currentTemperature = 1,
                  bestState = s, bestCost = 1\<rparr> \<and>
        currentCost (accept_update True s 0 \<lparr>currentState = s, currentCost = 1,
                  currentTemperature = 1, bestState = s, bestCost = 1\<rparr>) <
        bestCost (accept_update True s 0 \<lparr>currentState = s, currentCost = 1,
                  currentTemperature = 1, bestState = s, bestCost = 1\<rparr>)" for s :: 's
    by (simp add: accept_update_def)
  then show "\<exists>rs :: 's run_state. \<exists>neighborState neighborCost.
           bestCost rs \<le> currentCost rs \<and>
           currentCost (accept_update True neighborState neighborCost rs) <
             bestCost (accept_update True neighborState neighborCost rs)"
    by blast
  show "sorted_wrt (\<ge>) (map (\<lambda>p. bestCost (fst (fst p))) (run_points mathRandom args w k))"
    by (rule bestCost_points_sorted)
qed

theorem best_le_current_at_boundaries_witness:
  "deterministic_cost ex_args ex_cost \<and>
   list_all (\<lambda>p. bestCost (fst (fst p)) \<le> currentCost (fst (fst p)))
     (run_points ex_random ex_args [] 2)"
proof -
  from best_le_current_at_boundaries [OF ex_deterministic_cost, of ex_random "[]" 2]
  have "list_all (\<lambda>p. bestCost (fst (fst p)) \<le> currentCost (fst (fst p)))
     (run_points ex_random ex_args [] 2)"
    by (simp add: list_all_iff)
  with ex_deterministic_cost show ?thesis by blast
qed

text \<open>
  C2, as stated, asks for a run with a boundary between iterations where
  \<open>bestCost > currentCost\<close>. With a deterministic \<open>getCost\<close> there is none.
\<close>

theorem best_above_current_at_no_boundary:
  "\<not> (\<exists>(mathRandom :: 'w \<Rightarrow> real \<times> 'w) (args :: ('s, 'w) SimulatedAnnealingArgs) cost w k p.
        deterministic_cost args cost \<and> p \<in> set (run_points mathRandom args w k) \<and>
        bestCost (fst (fst p)) > currentCost (fst (fst p)))"
  using best_le_current_points by fastforce

text \<open>
  C5. With a deterministic \<open>getCost\<close> and a cost-preserving \<open>copyState\<close>: at every point
  of a run, the cost of \<open>bestState\<close> is \<open>bestCost\<close> and equals the minimum of the cost
  of \<open>initialState\<close> and the costs of all neighbors generated so far, accepted or not.
  In particular the returned state has the lowest cost among the initial state and all
  neighbors the run generated.
\<close>

theorem best_is_lowest_cost_observed:
  fixes mathRandom :: "'w \<Rightarrow> real \<times> 'w" and args :: "('s, 'w) SimulatedAnnealingArgs"
  assumes det: "deterministic_cost args cost" and copy: "copy_keeps_cost args cost"
  shows "(\<forall>p \<in> set (run_points mathRandom args w k).
            bestCost (fst (fst p)) = cost (bestState (fst (fst p))) \<and>
            cost (bestState (fst (fst p))) =
              Min (insert (cost (initialState args)) (cost ` neighborState_at args ` set (snd p)))) \<and>
         (\<forall>r w'. runSimulatedAnnealing mathRandom args w = Some (r, w') \<longrightarrow>
            (\<exists>n. final_config mathRandom args w = Some (fst (last (run_points mathRandom args w n))) \<and>
                 cost r = Min (insert (cost (initialState args))
                   (cost ` neighborState_at args ` set (snd (last (run_points mathRandom args w n)))))))"
proof (intro conjI allI impI ballI)
  fix p assume "p \<in> set (run_points mathRandom args w k)"
  from best_min_points [OF det copy this]
  show "bestCost (fst (fst p)) = cost (bestState (fst (fst p)))"
    and "cost (bestState (fst (fst p))) =
              Min (insert (cost (initialState args)) (cost ` neighborState_at args ` set (snd p)))"
    by blast+
next
  fix r w' assume "runSimulatedAnnealing mathRandom args w = Some (r, w')"
  from run_result_point [OF this] obtain n where
    n: "final_config mathRandom args w = Some (fst (last (run_points mathRandom args w n)))"
    and r: "r = bestState (fst (fst (last (run_points mathRandom args w n))))" by blast
  from best_min_points [OF det copy last_run_point_in_set [of mathRandom args w n]] r
  have "cost r = Min (insert (cost (initialState args))
      (cost ` neighborState_at args ` set (snd (last (run_points mathRandom args w n)))))"
    by simp
  with n show "\<exists>n. final_config mathRandom args w =
        Some (fst (last (run_points mathRandom args w n))) \<and>
      cost r = Min (insert (cost (initialState args))
        (cost ` neighborState_at args ` set (snd (last (run_points mathRandom args w n)))))"
    by blast
qed

theorem best_is_lowest_cost_observed_witness:
  "deterministic_cost ex_args ex_cost \<and> copy_keeps_cost ex_args ex_cost \<and>
   runSimulatedAnnealing ex_random ex_args [] = Some (0, []) \<and>
   map (\<lambda>p. ex_cost (neighborState_at ex_args p)) (snd (last (run_points ex_random ex_args [] 2))) =
     [1, 0, 1, 4] \<and>
   list_all (\<lambda>p. ex_cost (bestState (fst (fst p))) =
       Min (insert (ex_cost (initialState ex_args)) (ex_cost ` neighborState_at ex_args ` set (snd p))))
     (run_points ex_random ex_args [] 2)"
proof -
  from best_is_lowest_cost_observed [OF ex_deterministic_cost ex_copy_keeps_cost, of ex_random "[]" 2]
  have "list_all (\<lambda>p. ex_cost (bestState (fst (fst p))) =
       Min (insert (ex_cost (initialState ex_args)) (ex_cost ` neighborState_at ex_args ` set (snd p))))
     (run_points ex_random ex_args [] 2)"
    by (simp add: list_all_iff)
  moreover have "map (\<lambda>p. ex_cost (neighborState_at ex_args p))
      (snd (last (run_points ex_random ex_args [] 2))) = [1, 0, 1, 4]"
    by (simp add: ex_run_points) (simp add: neighborState_at_def ex_cfg_def ex_args_def ex_cost_def)
  ultimately show ?thesis
    using ex_deterministic_cost ex_copy_keeps_cost ex_run by blast
qed

text \<open>
  C6. With a deterministic \<open>getCost\<close> and a cost-preserving \<open>copyState\<close>: whatever the
  number of iterations, \<open>getCost\<close> of the best state so far, and of the state the run
  returns, is at most \<open>getCost\<close> of \<open>initialState\<close>.
\<close>

theorem cost_non_regression:
  fixes mathRandom :: "'w \<Rightarrow> real \<times> 'w" and args :: "('s, 'w) SimulatedAnnealingArgs"
  assumes det: "deterministic_cost args cost" and copy: "copy_keeps_cost args cost"
  shows "(\<forall>p \<in> set (run_points mathRandom args w k). \<forall>w1 w2.
            fst (getCost args (bestState (fst (fst p))) w1) \<le>
            fst (getCost args (initialState args) w2)) \<and>
         (\<forall>r w'. runSimulatedAnnealing mathRandom args w = Some (r, w') \<longrightarrow>
            (\<forall>w1 w2. fst (getCost args r w1) \<le> fst (getCost args (initialState args) w2)))"
proof -
  have le: "cost (bestState (fst (fst p))) \<le> cost (initialState args)"
    if "p \<in> set (run_points mathRandom args w k)" for p k
    using best_min_points [OF det copy that] by simp
  have cost: "fst (getCost args s w1) = cost s" for s w1
    using det by (simp add: deterministic_cost_def)
  have "cost r \<le> cost (initialState args)"
    if "runSimulatedAnnealing mathRandom args w = Some (r, w')" for r w'
  proof -
    from run_result_point [OF that] obtain n where
      "r = bestState (fst (fst (last (run_points mathRandom args w n))))" by blast
    with le [OF last_run_point_in_set [of mathRandom args w n]] show ?thesis by simp
  qed
  with le show ?thesis by (simp add: cost)
qed

theorem cost_non_regression_witness:
  "deterministic_cost ex_args ex_cost \<and> copy_keeps_cost ex_args ex_cost \<and>
   runSimulatedAnnealing ex_random ex_args [] = Some (0, []) \<and>
   fst (getCost ex_args 0 []) = 0 \<and> fst (getCost ex_args (initialState ex_args) []) = 4 \<and>
   fst (getCost ex_args 0 []) \<le> fst (getCost ex_args (initialState ex_args) [])"
proof -
  from cost_non_regression [OF ex_deterministic_cost ex_copy_keeps_cost, of ex_random "[]" 0] ex_run
  have "fst (getCost ex_args 0 []) \<le> fst (getCost ex_args (initialState ex_args) [])"
    by blast
  moreover have "fst (getCost ex_args 0 []) = 0" "fst (getCost ex_args (initialState ex_args) []) = 4"
    by (simp_all add: ex_args_def ex_cost_def)
  ultimately show ?thesis
    using ex_deterministic_cost ex_copy_keeps_cost ex_run by blast
qed

text \<open>
  C10. \<open>bestState\<close> and \<open>bestCost\<close> are replaced by the neighbor and its cost exactly
  when the neighbor's cost is strictly below \<open>bestCost\<close>; a neighbor that ties leaves
  both as they are. At the first \<open>while\<close> test \<open>bestState\<close> is the copy of
  \<open>initialState\<close> made at entry, the result of the call \<open>copyState(initialState)\<close> of
  line 87. So, with a deterministic \<open>getCost\<close> and a cost-preserving \<open>copyState\<close>,
  \<open>bestState\<close> is at every point the earliest cheapest state among that copy followed
  by the neighbors generated so far, and it is that copy when no neighbor is strictly
  cheaper than \<open>initialState\<close>. The same holds of the returned state, over all neighbors
  of the run.
\<close>

theorem ties_keep_the_earliest:
  fixes mathRandom :: "'w \<Rightarrow> real \<times> 'w" and args :: "('s, 'w) SimulatedAnnealingArgs"
  assumes det: "deterministic_cost args cost" and copy: "copy_keeps_cost args cost"
  shows "bestState (fst (initial_config args w)) = entry_copy args w \<and>
         (\<forall>cfg. (neighborCost_at args cfg < bestCost (fst cfg) \<longrightarrow>
                  bestState (fst (inner_body mathRandom args cfg)) = neighborState_at args cfg \<and>
                  bestCost (fst (inner_body mathRandom args cfg)) = neighborCost_at args cfg) \<and>
               (\<not> neighborCost_at args cfg < bestCost (fst cfg) \<longrightarrow>
                  bestState (fst (inner_body mathRandom args cfg)) = bestState (fst cfg) \<and>
                  bestCost (fst (inner_body mathRandom args cfg)) = bestCost (fst cfg))) \<and>
         (\<forall>p \<in> set (run_points mathRandom args w k).
            earliest_cheapest cost (entry_copy args w # map (neighborState_at args) (snd p))
              (bestState (fst (fst p))) \<and>
            ((\<forall>c \<in> set (snd p). \<not> cost (neighborState_at args c) < cost (initialState args)) \<longrightarrow>
               bestState (fst (fst p)) = entry_copy args w)) \<and>
         (\<forall>r w'. runSimulatedAnnealing mathRandom args w = Some (r, w') \<longrightarrow>
            (\<exists>n. final_config mathRandom args w = Some (fst (last (run_points mathRandom args w n))) \<and>
                 earliest_cheapest cost
                   (entry_copy args w #
                    map (neighborState_at args) (snd (last (run_points mathRandom args w n)))) r \<and>
                 ((\<forall>c \<in> set (snd (last (run_points mathRandom args w n))).
                     \<not> cost (neighborState_at args c) < cost (initialState args)) \<longrightarrow>
                  r = entry_copy args w)))"
proof (intro conjI)
  show "bestState (fst (initial_config args w)) = entry_copy args w"
    by (rule bestState_initial_config)
  show "\<forall>cfg. (neighborCost_at args cfg < bestCost (fst cfg) \<longrightarrow>
                  bestState (fst (inner_body mathRandom args cfg)) = neighborState_at args cfg \<and>
                  bestCost (fst (inner_body mathRandom args cfg)) = neighborCost_at args cfg) \<and>
               (\<not> neighborCost_at args cfg < bestCost (fst cfg) \<longrightarrow>
                  bestState (fst (inner_body mathRandom args cfg)) = bestState (fst cfg) \<and>
                  bestCost (fst (inner_body mathRandom args cfg)) = bestCost (fst cfg))"
    by (simp add: best_inner_body)
  show "\<forall>p \<in> set (run_points mathRandom args w k).
            earliest_cheapest cost (entry_copy args w # map (neighborState_at args) (snd p))
              (bestState (fst (fst p))) \<and>
            ((\<forall>c \<in> set (snd p). \<not> cost (neighborState_at args c) < cost (initialState args)) \<longrightarrow>
               bestState (fst (fst p)) = entry_copy args w)"
    using best_earliest_point [OF det copy] by blast
  show "\<forall>r w'. runSimulatedAnnealing mathRandom args w = Some (r, w') \<longrightarrow>
            (\<exists>n. final_config mathRandom args w = Some (fst (last (run_points mathRandom args w n))) \<and>
                 earliest_cheapest cost
                   (entry_copy args w #
                    map (neighborState_at args) (snd (last (run_points mathRandom args w n)))) r \<and>
                 ((\<forall>c \<in> set (snd (last (run_points mathRandom args w n))).
                     \<not> cost (neighborState_at args c) < cost (initialState args)) \<longrightarrow>
                  r = entry_copy args w))"
  proof (intro allI impI)
    fix r w' assume "runSimulatedAnnealing mathRandom args w = Some (r, w')"
    from run_result_point [OF this] obtain n where
      n: "final_config mathRandom args w = Some (fst (last (run_points mathRandom args w n)))"
      and r: "r = bestState (fst (fst (last (run_points mathRandom args w n))))" by blast
    from best_earliest_point [OF det copy last_run_point_in_set [of mathRandom args w n]] n r
    show "\<exists>n. final_config mathRandom args w = Some (fst (last (run_points mathRandom args w n))) \<and>
                 earliest_cheapest cost
                   (entry_copy args w #
                    map (neighborState_at args) (snd (last (run_points mathRandom args w n)))) r \<and>
                 ((\<forall>c \<in> set (snd (last (run_points mathRandom args w n))).
                     \<not> cost (neighborState_at args c) < cost (initialState args)) \<longrightarrow>
                  r = entry_copy args w)"
      by blast
  qed
qed

theorem ties_keep_the_earliest_witness:
  "deterministic_cost ex_tie_args (\<lambda>s. ex_cost (fst s)) \<and>
   copy_keeps_cost ex_tie_args (\<lambda>s. ex_cost (fst s)) \<and>
   initialState ex_tie_args = (2, 0) \<and>
   entry_copy ex_tie_args [] = (2, 1) \<and>
   map (neighborState_at ex_tie_args) (snd (last (run_points ex_random ex_tie_args [] 2))) =
     [(- 2, 11), (2, 21), (- 2, 31), (2, 41)] \<and>
   ex_cost (- 2) = ex_cost 2 \<and>
   runSimulatedAnnealing ex_random ex_tie_args [] = Some (entry_copy ex_tie_args [], []) \<and>
   list_all (\<lambda>p. earliest_cheapest (\<lambda>s. ex_cost (fst s))
        (entry_copy ex_tie_args [] # map (neighborState_at ex_tie_args) (snd p))
        (bestState (fst (fst p))))
     (run_points ex_random ex_tie_args [] 2)"
proof -
  from ties_keep_the_earliest [OF ex_tie_assumptions, of "[]" ex_random 2]
  have "list_all (\<lambda>p. earliest_cheapest (\<lambda>s. ex_cost (fst s))
        (entry_copy ex_tie_args [] # map (neighborState_at ex_tie_args) (snd p))
        (bestState (fst (fst p))))
     (run_points ex_random ex_tie_args [] 2)"
    by (simp add: list_all_iff)
  moreover have "map (neighborState_at ex_tie_args)
      (snd (last (run_points ex_random ex_tie_args [] 2))) = [(- 2, 11), (2, 21), (- 2, 31), (2, 41)]"
    by (simp add: ex_tie_run_points)
       (simp add: neighborState_at_def ex_cfg_def ex_tie_args_def)
  moreover have "initialState ex_tie_args = (2, 0)" by (simp add: ex_tie_args_def)
  moreover have "ex_cost (- 2) = ex_cost 2" by (simp add: ex_cost_def)
  ultimately show ?thesis
    using ex_tie_assumptions ex_tie_run ex_tie_entry_copy by simp
qed

text \<open>
  C1, as the code has it. \<open>run\<close> stores into \<open>bestState\<close> the very state that
  \<open>generateNewState\<close> returned (line 109), the one it also stores into \<open>currentState\<close>
  when the move is accepted (line 104); \<open>copyState\<close> is applied to \<open>initialState\<close> only,
  at entry. When the caller is mutation-free and \<open>initialState\<close> exists, a state
  recorded as best at any boundary between iterations still exists, with the content it
  had then, at every later point of the run; and the returned state exists in the world
  the run leaves, with the content it had at every point where it was the best.
\<close>

theorem recorded_best_is_kept:
  fixes mathRandom :: "'w \<Rightarrow> real \<times> 'w" and args :: "('s, 'w) SimulatedAnnealingArgs"
  assumes free: "mutation_free mathRandom args alive content"
    and init: "alive (initialState args) w"
  shows "(\<forall>cfg. (neighborCost_at args cfg < bestCost (fst cfg) \<longrightarrow>
                  bestState (fst (inner_body mathRandom args cfg)) = neighborState_at args cfg) \<and>
               (accepted_at mathRandom args cfg \<longrightarrow>
                  currentState (fst (inner_body mathRandom args cfg)) = neighborState_at args cfg)) \<and>
         (\<forall>p \<in> set (run_points mathRandom args w k). \<forall>q \<in> set (snd p).
            alive (bestState (fst q)) (snd (fst p)) \<and>
            content (bestState (fst q)) (snd (fst p)) = content (bestState (fst q)) (snd q)) \<and>
         (\<forall>r w'. runSimulatedAnnealing mathRandom args w = Some (r, w') \<longrightarrow>
            (\<exists>n. final_config mathRandom args w = Some (fst (last (run_points mathRandom args w n))) \<and>
                 alive r w' \<and>
                 (\<forall>q \<in> set (snd (last (run_points mathRandom args w n))).
                    bestState (fst q) = r \<longrightarrow> content r w' = content r (snd q))))"
proof (intro conjI)
  show "\<forall>cfg. (neighborCost_at args cfg < bestCost (fst cfg) \<longrightarrow>
                  bestState (fst (inner_body mathRandom args cfg)) = neighborState_at args cfg) \<and>
               (accepted_at mathRandom args cfg \<longrightarrow>
                  currentState (fst (inner_body mathRandom args cfg)) = neighborState_at args cfg)"
    by (simp add: best_inner_body current_inner_body)
  show "\<forall>p \<in> set (run_points mathRandom args w k). \<forall>q \<in> set (snd p).
            alive (bestState (fst q)) (snd (fst p)) \<and>
            content (bestState (fst q)) (snd (fst p)) = content (bestState (fst q)) (snd q)"
    using recorded_best_kept_points [OF free init, of k] by blast
  show "\<forall>r w'. runSimulatedAnnealing mathRandom args w = Some (r, w') \<longrightarrow>
            (\<exists>n. final_config mathRandom args w = Some (fst (last (run_points mathRandom args w n))) \<and>
                 alive r w' \<and>
                 (\<forall>q \<in> set (snd (last (run_points mathRandom args w n))).
                    bestState (fst q) = r \<longrightarrow> content r w' = content r (snd q)))"
  proof (intro allI impI)
    fix r w' assume "runSimulatedAnnealing mathRandom args w = Some (r, w')"
    from run_result_point [OF this] obtain n where
      n: "final_config mathRandom args w = Some (fst (last (run_points mathRandom args w n)))"
      and r: "r = bestState (fst (fst (last (run_points mathRandom args w n))))"
      and w': "w' = snd (fst (last (run_points mathRandom args w n)))" by blast
    from recorded_best_kept_points [OF free init, of n] last_run_point_in_set [of mathRandom args w n]
    have "alive (bestState (fst (fst (last (run_points mathRandom args w n)))))
            (snd (fst (last (run_points mathRandom args w n)))) \<and>
          (\<forall>q \<in> set (snd (last (run_points mathRandom args w n))).
              alive (bestState (fst q)) (snd (fst (last (run_points mathRandom args w n)))) \<and>
              content (bestState (fst q)) (snd (fst (last (run_points mathRandom args w n)))) =
                content (bestState (fst q)) (snd q))"
      by blast
    with r w' have "alive r w' \<and>
        (\<forall>q \<in> set (snd (last (run_points mathRandom args w n))).
            bestState (fst q) = r \<longrightarrow> content r w' = content r (snd q))"
      by auto
    with n show "\<exists>n. final_config mathRandom args w =
          Some (fst (last (run_points mathRandom args w n))) \<and>
        alive r w' \<and>
        (\<forall>q \<in> set (snd (last (run_points mathRandom args w n))).
            bestState (fst q) = r \<longrightarrow> content r w' = content r (snd q))"
      by blast
  qed
qed

theorem recorded_best_is_kept_witness:
  "mutation_free hp_random hp_fresh_args hp_alive hp_content \<and>
   hp_alive (initialState hp_fresh_args) ([5, 0], [3, 7]) \<and>
   runSimulatedAnnealing hp_random hp_fresh_args ([5, 0], [3, 7]) =
     Some (4, ([5, 0, 5, 5, 3, 7], [])) \<and>
   hp_content 4 ([5, 0, 5, 5, 3, 7], []) = 3 \<and>
   list_all (\<lambda>p. list_all (\<lambda>q.
        hp_alive (bestState (fst q)) (snd (fst p)) \<and>
        hp_content (bestState (fst q)) (snd (fst p)) = hp_content (bestState (fst q)) (snd q))
      (snd p))
     (run_points hp_random hp_fresh_args ([5, 0], [3, 7]) 1)"
proof -
  have init: "hp_alive (initialState hp_fresh_args) ([5, 0], [3, 7])"
    by (simp add: hp_alive_def hp_fresh_args_def hp_inplace_args_def)
  from recorded_best_is_kept [OF hp_fresh_mutation_free init, of 1]
  have "list_all (\<lambda>p. list_all (\<lambda>q.
        hp_alive (bestState (fst q)) (snd (fst p)) \<and>
        hp_content (bestState (fst q)) (snd (fst p)) = hp_content (bestState (fst q)) (snd q))
      (snd p))
     (run_points hp_random hp_fresh_args ([5, 0], [3, 7]) 1)"
    by (simp add: list_all_iff)
  moreover have "hp_content 4 ([5, 0, 5, 5, 3, 7], []) = 3"
    by (simp add: hp_content_def)
  ultimately show ?thesis
    using hp_fresh_mutation_free init hp_fresh_run by blast
qed

text \<open>
  C1, as stated, fails for a caller that perturbs in place: the first iteration records
  the neighbor at address \<open>2\<close> as best, with content and cost \<open>3\<close>; the second
  perturbs \<open>currentState\<close>, the same address; \<open>bestState\<close> and \<open>bestCost\<close> are not
  updated, yet the recorded state now holds \<open>7\<close>, and that is what the run returns.
\<close>

theorem recorded_best_altered_in_place:
  "runSimulatedAnnealing hp_random hp_inplace_args ([5, 0], [3, 7]) = Some (2, ([5, 0, 7, 5], [])) \<and>
   (let c0 = initial_config hp_inplace_args ([5, 0], [3, 7]);
        c1 = inner_body hp_random hp_inplace_args c0;
        c2 = inner_body hp_random hp_inplace_args c1
    in neighborCost_at hp_inplace_args c0 < bestCost (fst c0) \<and>
       bestState (fst c1) = neighborState_at hp_inplace_args c0 \<and>
       bestCost (fst c1) = 3 \<and> hp_content (bestState (fst c1)) (snd c1) = 3 \<and>
       bestState (fst c2) = bestState (fst c1) \<and>
       bestCost (fst c2) = 3 \<and> hp_content (bestState (fst c2)) (snd c2) = 7)"
proof -
  have "neighborState_at hp_inplace_args (hp_cfg 2 5 1 3 5 ([5, 0, 5, 5], [3, 7])) = 2"
    "neighborCost_at hp_inplace_args (hp_cfg 2 5 1 3 5 ([5, 0, 5, 5], [3, 7])) = 3"
    by (simp_all add: neighborCost_at_def neighborState_at_def hp_inplace_args_def)
  then show ?thesis
    by (simp add: hp_inplace_run hp_inplace_initial_config hp_inplace_step_1 hp_inplace_step_2
        hp_content_def Let_def)
qed

text \<open>
  C3, at a single group. With draws of \<open>[0, 1)\<close>, the repository's
  \<open>generateNewState\<close> never returns on a collection of exactly one group, whatever the
  group's size: \<open>generateUniqueRandomNumbers(0, 0)\<close> can only draw \<open>0\<close> twice.
\<close>

theorem single_group_never_returns:
  assumes "unit_interval mathRandom"
  shows "fixture_generateNewState mathRandom [onlyGroup] w = None"
  using generateUniqueRandomNumbers_single [OF assms, of 0 w]
  by (simp add: fixture_generateNewState_def)

theorem single_group_never_returns_witness:
  "unit_interval (\<lambda>w :: unit. (0, w)) \<and>
   fixture_generateNewState (\<lambda>w :: unit. (0, w)) [[Some 1]] () = None \<and>
   fixture_generateNewState (\<lambda>w :: unit. (0, w)) [[]] () = None"
  using single_group_never_returns [OF ex_random_unit_interval, of "[Some 1]" "()"]
    single_group_never_returns [OF ex_random_unit_interval, of "[]" "()"]
    ex_random_unit_interval
  by blast

end
